theory Spec2Isabelle
  imports Complex_Main "HOL-Library.Log_Nat"
begin

section \<open>Conventions\<close>

text \<open>
  The embedding follows \<^verbatim>\<open>src/TrafficManagement.cpp\<close> class by class.
  \<^item> A C++ \<^verbatim>\<open>double\<close> is a value of the type \<open>double\<close> of the next section: a real
    number that the binary64 format represents, with every operation rounded to the
    nearest such number, ties to even. The exponent is not bounded, so the model has no
    infinities, no NaN and no subnormal numbers; the program stays far from all of them,
    and the one place where it could divide by zero is written out.
  \<^item> A C++ \<^verbatim>\<open>int\<close> is an \<^typ>\<open>int\<close>: signed overflow is undefined behaviour in C++, so
    the model describes the executions the language defines (the program itself counts
    to 60 in steps of 1).
  \<^item> A \<^verbatim>\<open>Vehicle*\<close> is an index into the list of all Vehicle objects allocated so far
    (the objects are freed by the destructor of Simulation only, so no address is used
    twice), a \<^verbatim>\<open>Lane*\<close> is an index into the \<^verbatim>\<open>lanes\<close> vector of the simulation, and
    \<^verbatim>\<open>nullptr\<close> is \<^term>\<open>None\<close>.
  \<^item> The \<^verbatim>\<open>TrafficLight*\<close> of a lane is allocated by the constructor of Lane and never
    reassigned, so the light is a field of the lane and the test \<^verbatim>\<open>light &&\<close> of
    \<^verbatim>\<open>Vehicle::move\<close> is always true.
  \<^item> The random engine is replaced by the values it hands out: each call of a
    distribution receives one uniform draw from [0, 1).
  \<^item> Names follow the source; a field whose name is taken in HOL or by another class is
    renamed: \<open>vid\<close>, \<open>lid\<close> (\<^verbatim>\<open>id\<close>), \<open>vtype\<close> (\<^verbatim>\<open>type\<close>), \<open>len\<close> (\<^verbatim>\<open>length\<close>),
    \<open>all_vehicles\<close> (\<^verbatim>\<open>Simulation::vehicles\<close>), and a member function carries the name
    of its class where two classes have one of that name.
\<close>

section \<open>Double precision numbers\<close>

text \<open>
  The binary exponent of a real number that is not 0: the \<open>e\<close> with
  \<open>2\<^sup>e \<le> |x| < 2\<^sup>e\<^sup>+\<^sup>1\<close> (lemma \<open>ilog2_bounds\<close>), computed from the number of bits of an
  integer next to \<open>|x|\<close> or to \<open>1 / |x|\<close>.
\<close>

definition ilog2 :: "real \<Rightarrow> int" where
  "ilog2 x = (if 1 \<le> \<bar>x\<bar> then bitlen \<lfloor>\<bar>x\<bar>\<rfloor> - 1 else - bitlen (\<lceil>1 / \<bar>x\<bar>\<rceil> - 1))"

text \<open>Rounding to the nearest integer, a tie to the even one.\<close>

definition round_half_even :: "real \<Rightarrow> int" where
  "round_half_even y =
     (let f = \<lfloor>y\<rfloor>; d = y - of_int f
      in if d < 1 / 2 then f else if 1 / 2 < d then f + 1 else if even f then f else f + 1)"

text \<open>
  Rounding to the nearest double: a double has 53 significant bits, so in the binade of
  \<open>x\<close> the doubles are the multiples of \<open>2\<^sup>e\<^sup>-\<^sup>5\<^sup>2\<close>.
\<close>

definition round_double :: "real \<Rightarrow> real" where
  "round_double x =
     (if x = 0 then 0
      else (let q = 2 powi (ilog2 x - 52) in of_int (round_half_even (x / q)) * q))"

text \<open>
  The type of the doubles: the real numbers that rounding leaves as they are. \<open>val\<close> is
  the number a double stands for, \<open>D r\<close> is the double next to \<open>r\<close>: what the literal
  \<open>r\<close> denotes in the source, and the conversion of an integer to \<^verbatim>\<open>double\<close>.
\<close>

typedef double = "{x :: real. round_double x = x}"
  morphisms val Abs_double
proof
  show "0 \<in> {x :: real. round_double x = x}"
    by (simp add: round_double_def)
qed

definition D :: "real \<Rightarrow> double" where
  "D r = Abs_double (round_double r)"

text \<open>
  The arithmetic of the source on doubles: the exact result, rounded. Comparisons compare
  the numbers.
\<close>

instantiation double :: "{zero, plus, minus, times, inverse, ord}"
begin

definition zero_double :: double where
  "zero_double = D 0"

definition plus_double :: "double \<Rightarrow> double \<Rightarrow> double" where
  "plus_double a b = D (val a + val b)"

definition minus_double :: "double \<Rightarrow> double \<Rightarrow> double" where
  "minus_double a b = D (val a - val b)"

definition times_double :: "double \<Rightarrow> double \<Rightarrow> double" where
  "times_double a b = D (val a * val b)"

definition divide_double :: "double \<Rightarrow> double \<Rightarrow> double" where
  "divide_double a b = D (val a / val b)"

definition inverse_double :: "double \<Rightarrow> double" where
  "inverse_double a = D (inverse (val a))"

definition less_eq_double :: "double \<Rightarrow> double \<Rightarrow> bool" where
  "less_eq_double a b \<longleftrightarrow> val a \<le> val b"

definition less_double :: "double \<Rightarrow> double \<Rightarrow> bool" where
  "less_double a b \<longleftrightarrow> val a < val b"

instance ..

end

section \<open>Data model of TrafficManagement.cpp\<close>

datatype LightState = RED | YELLOW | GREEN

datatype VehicleType = CAR | BUS | TRUCK | MOTORCYCLE

record Vehicle =
  vid :: int
  vtype :: VehicleType
  speed :: double
  position :: double
  currentLane :: "nat option"

record TrafficLight =
  state :: LightState
  greenTime :: int
  yellowTime :: int
  redTime :: int
  timer :: int

record Lane =
  lid :: int
  len :: double
  speedLimit :: double
  vehicles :: "nat list"
  light :: TrafficLight

section \<open>TrafficLight\<close>

text \<open>The constructor \<^verbatim>\<open>TrafficLight(int g, int y, int r)\<close>.\<close>

definition TrafficLight_ctor :: "int \<Rightarrow> int \<Rightarrow> int \<Rightarrow> TrafficLight" where
  "TrafficLight_ctor g y r =
     \<lparr>state = RED, greenTime = g, yellowTime = y, redTime = r, timer = 0\<rparr>"

text \<open>\<^verbatim>\<open>void TrafficLight::update(int step)\<close>: the addition, then the switch on the state.\<close>

definition TrafficLight_update :: "int \<Rightarrow> TrafficLight \<Rightarrow> TrafficLight" where
  "TrafficLight_update step l =
     (let l1 = l\<lparr>timer := timer l + step\<rparr> in
      case state l1 of
        GREEN \<Rightarrow> if timer l1 \<ge> greenTime l1 then l1\<lparr>state := YELLOW, timer := 0\<rparr> else l1
      | YELLOW \<Rightarrow> if timer l1 \<ge> yellowTime l1 then l1\<lparr>state := RED, timer := 0\<rparr> else l1
      | RED \<Rightarrow> if timer l1 \<ge> redTime l1 then l1\<lparr>state := GREEN, timer := 0\<rparr> else l1)"

definition getState :: "TrafficLight \<Rightarrow> LightState" where
  "getState l = state l"

text \<open>
  The vocabulary of the specification, to compare the code with: the successor of a state
  on the cycle GREEN, YELLOW, RED, and the dwell duration of the state a light is in.
\<close>

fun next_on_cycle :: "LightState \<Rightarrow> LightState" where
  "next_on_cycle GREEN = YELLOW"
| "next_on_cycle YELLOW = RED"
| "next_on_cycle RED = GREEN"

definition dwell :: "TrafficLight \<Rightarrow> int" where
  "dwell l = (case state l of GREEN \<Rightarrow> greenTime l | YELLOW \<Rightarrow> yellowTime l | RED \<Rightarrow> redTime l)"

text \<open>A sequence of calls \<^verbatim>\<open>update(s1); update(s2); ...\<close> on one light.\<close>

definition TrafficLight_updates :: "int list \<Rightarrow> TrafficLight \<Rightarrow> TrafficLight" where
  "TrafficLight_updates steps l = fold TrafficLight_update steps l"

section \<open>Vehicle\<close>

text \<open>The constructor \<^verbatim>\<open>Vehicle(int id, VehicleType type, double speed)\<close>.\<close>

definition Vehicle_ctor :: "int \<Rightarrow> VehicleType \<Rightarrow> double \<Rightarrow> Vehicle" where
  "Vehicle_ctor i t s = \<lparr>vid = i, vtype = t, speed = s, position = D 0, currentLane = None\<rparr>"

text \<open>
  \<^verbatim>\<open>Vehicle::getSymbol\<close>; the \<^verbatim>\<open>default\<close> branch of its switch is not reached by one of
  the four enumerators.
\<close>

definition getSymbol :: "Vehicle \<Rightarrow> string" where
  "getSymbol v = (case vtype v of CAR \<Rightarrow> ''C'' | BUS \<Rightarrow> ''B'' | TRUCK \<Rightarrow> ''T'' | MOTORCYCLE \<Rightarrow> ''M'')"

text \<open>
  \<^verbatim>\<open>void Vehicle::move(double timeStep)\<close>. The lane objects are read through the pointer
  \<^verbatim>\<open>currentLane\<close>; \<open>L\<close> is the list of the lane objects. Every operation is the one
  on doubles; the \<^verbatim>\<open>int\<close> constants 10 and 0 are converted to \<^verbatim>\<open>double\<close>.
\<close>

definition move :: "Lane list \<Rightarrow> double \<Rightarrow> Vehicle \<Rightarrow> Vehicle" where
  "move L timeStep v =
     (case currentLane v of
        None \<Rightarrow> v
      | Some l \<Rightarrow>
          (let mps = speed v * D 1000 / D 3600;
               nextPos = position v + mps * timeStep
           in if getState (light (L ! l)) \<noteq> GREEN \<and>
                 position v < len (L ! l) - D 10 \<and>
                 nextPos \<ge> len (L ! l) - D 10
              then v\<lparr>speed := D 0\<rparr>
              else v\<lparr>position := nextPos\<rparr>))"

section \<open>Lane\<close>

text \<open>The constructor \<^verbatim>\<open>Lane(int id, double len, double limit)\<close>.\<close>

definition Lane_ctor :: "int \<Rightarrow> double \<Rightarrow> double \<Rightarrow> Lane" where
  "Lane_ctor i l limit =
     \<lparr>lid = i, len = l, speedLimit = limit, vehicles = [], light = TrafficLight_ctor 10 3 7\<rparr>"

text \<open>
  \<^verbatim>\<open>void Lane::addVehicle(Vehicle* v)\<close> on the lane at index \<open>this\<close>: the pointer is pushed
  on the vector of the lane and the back reference of the object is set.
\<close>

definition addVehicle :: "nat \<Rightarrow> nat \<Rightarrow> Lane list \<times> Vehicle list \<Rightarrow> Lane list \<times> Vehicle list" where
  "addVehicle this p = (\<lambda>(L, h).
     (L[this := (L ! this)\<lparr>vehicles := vehicles (L ! this) @ [p]\<rparr>],
      h[p := (h ! p)\<lparr>currentLane := Some this\<rparr>]))"

text \<open>
  The loop of \<^verbatim>\<open>Lane::update\<close> from the iterator on: \<open>ps\<close> are the pointers from
  \<^verbatim>\<open>it\<close> to the end of the vector. The result is what is left of them once the loop
  is over (the pointers before \<^verbatim>\<open>it\<close> are never touched again), and the heap. The
  \<^verbatim>\<open>int\<close> time step is converted to \<^verbatim>\<open>double\<close> at the call of \<^verbatim>\<open>move\<close>.
\<close>

fun Lane_update_loop ::
  "Lane list \<Rightarrow> nat \<Rightarrow> int \<Rightarrow> nat list \<Rightarrow> Vehicle list \<Rightarrow> nat list \<times> Vehicle list" where
  "Lane_update_loop L this timeStep [] h = ([], h)"
| "Lane_update_loop L this timeStep (p # ps) h =
     (let h1 = h[p := move L (D (of_int timeStep)) (h ! p)] in
      if position (h1 ! p) \<ge> len (L ! this)
      then Lane_update_loop L this timeStep ps h1
      else (let (ks, h2) = Lane_update_loop L this timeStep ps h1 in (p # ks, h2)))"

text \<open>\<^verbatim>\<open>void Lane::update(int timeStep)\<close> on the lane at index \<open>this\<close>.\<close>

definition Lane_update :: "nat \<Rightarrow> int \<Rightarrow> Lane list \<times> Vehicle list \<Rightarrow> Lane list \<times> Vehicle list" where
  "Lane_update this timeStep = (\<lambda>(L, h).
     (let L1 = L[this := (L ! this)\<lparr>light := TrafficLight_update timeStep (light (L ! this))\<rparr>];
          (ks, h1) = Lane_update_loop L1 this timeStep (vehicles (L1 ! this)) h
      in (L1[this := (L1 ! this)\<lparr>vehicles := ks\<rparr>], h1)))"

section \<open>Simulation\<close>

text \<open>
  The fields of the class, and \<open>heap\<close>: the Vehicle objects allocated so far, in the order
  of their allocation. The pointer that \<^verbatim>\<open>new Vehicle\<close> returns is the index of the new
  object.
\<close>

record Simulation =
  lanes :: "Lane list"
  all_vehicles :: "nat list"
  nextId :: int
  simTime :: int
  heap :: "Vehicle list"

text \<open>
  What one tick takes from the random engine: one uniform draw from [0, 1) for each
  distribution that is called, the draw for \<^verbatim>\<open>Simulation::update\<close> and, read only when
  a vehicle is generated, the three draws for \<^verbatim>\<open>generateVehicle\<close>. \<open>draws_ok\<close> says
  that the four values are in [0, 1).
\<close>

record Draws =
  coin :: double
  typeDraw :: double
  speedDraw :: double
  laneDraw :: double

definition draws_ok :: "Draws \<Rightarrow> bool" where
  "draws_ok d \<longleftrightarrow>
     0 \<le> val (coin d) \<and> val (coin d) < 1 \<and>
     0 \<le> val (typeDraw d) \<and> val (typeDraw d) < 1 \<and>
     0 \<le> val (speedDraw d) \<and> val (speedDraw d) < 1 \<and>
     0 \<le> val (laneDraw d) \<and> val (laneDraw d) < 1"

text \<open>
  The distributions of the standard library, which are not code of this repository,
  modelled from the C++ standard: applied to a uniform draw \<open>u\<close> from [0, 1),
  \<^verbatim>\<open>uniform_real_distribution(a, b)\<close> returns \<open>u * (b - a) + a\<close>, computed in doubles,
  and \<^verbatim>\<open>uniform_int_distribution(a, b)\<close> cuts [0, 1) into \<open>b - a + 1\<close> intervals of the
  same length and returns \<open>a + k\<close> for a draw in the \<open>k\<close>-th of them.
\<close>

definition uniform_real_distribution :: "double \<Rightarrow> double \<Rightarrow> double \<Rightarrow> double" where
  "uniform_real_distribution a b u = u * (b - a) + a"

definition uniform_int_distribution :: "int \<Rightarrow> int \<Rightarrow> double \<Rightarrow> int" where
  "uniform_int_distribution a b u = a + \<lfloor>val u * of_int (b - a + 1)\<rfloor>"

text \<open>
  \<^verbatim>\<open>static_cast<VehicleType>\<close> of a value of \<^verbatim>\<open>typeDist(0, 3)\<close>, by the order of the
  enumerators. The distribution hands out 0, 1, 2 or 3 only, so the last branch is the
  value 3.
\<close>

definition static_cast_VehicleType :: "int \<Rightarrow> VehicleType" where
  "static_cast_VehicleType k =
     (if k = 0 then CAR else if k = 1 then BUS else if k = 2 then TRUCK else MOTORCYCLE)"

definition Simulation_ctor :: Simulation where
  "Simulation_ctor = \<lparr>lanes = [], all_vehicles = [], nextId = 1, simTime = 0, heap = []\<rparr>"

definition Simulation_setup :: "Simulation \<Rightarrow> Simulation" where
  "Simulation_setup s =
     (let s1 = s\<lparr>lanes := lanes s @ [Lane_ctor 1 (D 500) (D 50)]\<rparr>
      in s1\<lparr>lanes := lanes s1 @ [Lane_ctor 2 (D 600) (D 40)]\<rparr>)"

text \<open>
  \<^verbatim>\<open>void Simulation::generateVehicle()\<close>. \<^verbatim>\<open>lanes.size() - 1\<close> is the last index
  (\<^verbatim>\<open>setup\<close> has filled the vector), and \<open>v\<close> is the pointer that \<^verbatim>\<open>new\<close> returns.
\<close>

definition generateVehicle :: "Draws \<Rightarrow> Simulation \<Rightarrow> Simulation" where
  "generateVehicle d s =
     (let typeDist = uniform_int_distribution 0 3;
          speedDist = uniform_real_distribution (D 20) (D 50);
          laneDist = uniform_int_distribution 0 (int (length (lanes s)) - 1);
          type = static_cast_VehicleType (typeDist (typeDraw d));
          speed = speedDist (speedDraw d);
          laneIndex = nat (laneDist (laneDraw d));
          v = length (heap s);
          s1 = s\<lparr>heap := heap s @ [Vehicle_ctor (nextId s) type speed], nextId := nextId s + 1\<rparr>;
          (L, h) = addVehicle laneIndex v (lanes s1, heap s1)
      in s1\<lparr>lanes := L, heap := h, all_vehicles := all_vehicles s1 @ [v]\<rparr>)"

text \<open>The loop \<^verbatim>\<open>for (auto lane : lanes) lane->update(step)\<close>.\<close>

definition update_lanes :: "int \<Rightarrow> Simulation \<Rightarrow> Simulation" where
  "update_lanes step s =
     (let (L, h) = fold (\<lambda>i. Lane_update i step) [0..<length (lanes s)] (lanes s, heap s)
      in s\<lparr>lanes := L, heap := h\<rparr>)"

text \<open>
  \<^verbatim>\<open>void Simulation::update(int step)\<close>. The literal \<^verbatim>\<open>0.3\<close> is the double next to
  3/10, which is a little below it.
\<close>

definition Simulation_update :: "Draws \<Rightarrow> int \<Rightarrow> Simulation \<Rightarrow> Simulation" where
  "Simulation_update d step s =
     (let s1 = s\<lparr>simTime := simTime s + step\<rparr>;
          s2 = (if uniform_real_distribution (D 0) (D 1) (coin d) < D (3 / 10)
                then generateVehicle d s1 else s1)
      in update_lanes step s2)"

definition isRunning :: "Simulation \<Rightarrow> bool" where
  "isRunning s \<longleftrightarrow> simTime s < 60"

section \<open>Rendering\<close>

text \<open>
  \<^verbatim>\<open>static_cast<int>\<close> of a double drops the fractional part (rounds towards zero).
\<close>

definition static_cast_int :: "double \<Rightarrow> int" where
  "static_cast_int x = (if val x \<ge> 0 then \<lfloor>val x\<rfloor> else \<lceil>val x\<rceil>)"

text \<open>
  The assignment \<^verbatim>\<open>road[pos] = c\<close> on a \<^verbatim>\<open>std::string\<close>. An index outside the buffer
  is a write out of bounds; the model makes it the result \<^term>\<open>None\<close>.
\<close>

definition string_assign :: "string \<Rightarrow> int \<Rightarrow> char \<Rightarrow> string option" where
  "string_assign road pos c =
     (if 0 \<le> pos \<and> pos < int (length road) then Some (road[nat pos := c]) else None)"

text \<open>
  The inner loop of \<^verbatim>\<open>Simulation::display\<close> over the pointers \<open>ps\<close> of one lane:
  the track after the loop, or \<^term>\<open>None\<close> when a write left the buffer.
  \<^verbatim>\<open>road.size()\<close> is converted to \<^verbatim>\<open>double\<close>. For a lane of length 0 the quotient of
  the source is an infinity or NaN, which the model does not have: its conversion to
  \<^verbatim>\<open>int\<close> is no index of the track (it is undefined in C++ and the least \<^verbatim>\<open>int\<close> on
  x86), so nothing is drawn for the vehicle.
\<close>

fun draw_vehicles :: "Lane \<Rightarrow> Vehicle list \<Rightarrow> nat list \<Rightarrow> string \<Rightarrow> string option" where
  "draw_vehicles lane h [] road = Some road"
| "draw_vehicles lane h (v # ps) road =
     (if val (len lane) = 0 then draw_vehicles lane h ps road
      else
       (let pos = static_cast_int ((position (h ! v) / len lane) * D (real (length road))) in
        if pos \<ge> 0 \<and> pos < 50
        then (case string_assign road pos (getSymbol (h ! v) ! 0) of
                None \<Rightarrow> None
              | Some road1 \<Rightarrow> draw_vehicles lane h ps road1)
        else draw_vehicles lane h ps road))"

text \<open>
  What \<^verbatim>\<open>display\<close> prints for one lane: the id, the state of the light (printed as a
  coloured disc) and the track, \<^verbatim>\<open>std::string road(50, '-')\<close> with the vehicles drawn.
\<close>

definition display_lane :: "Vehicle list \<Rightarrow> Lane \<Rightarrow> (int \<times> LightState \<times> string) option" where
  "display_lane h lane =
     (case draw_vehicles lane h (vehicles lane) (replicate 50 (CHR ''-'')) of
        None \<Rightarrow> None
      | Some road \<Rightarrow> Some (lid lane, getState (light lane), road))"

fun display_lanes :: "Vehicle list \<Rightarrow> Lane list \<Rightarrow> (int \<times> LightState \<times> string) list option" where
  "display_lanes h [] = Some []"
| "display_lanes h (lane # ls) =
     (case display_lane h lane of
        None \<Rightarrow> None
      | Some row \<Rightarrow> (case display_lanes h ls of None \<Rightarrow> None | Some rows \<Rightarrow> Some (row # rows)))"

text \<open>
  \<^verbatim>\<open>void Simulation::display()\<close>: the clock and one row for each lane, in the order of the
  lanes. Clearing the terminal and the layout of the text are left out.
\<close>

definition display :: "Simulation \<Rightarrow> (int \<times> (int \<times> LightState \<times> string) list) option" where
  "display s =
     (case display_lanes (heap s) (lanes s) of
        None \<Rightarrow> None
      | Some rows \<Rightarrow> Some (simTime s, rows))"

section \<open>The main function\<close>

text \<open>
  What the program writes to the terminal: the frames of \<^verbatim>\<open>display\<close> and lines of text.
\<close>

datatype Output = Frame "int \<times> (int \<times> LightState \<times> string) list" | Text string

text \<open>
  The loop \<^verbatim>\<open>while (sim.isRunning()) { sim.update(1); sim.display(); ... }\<close>.
\<close>

function main_loop ::
  "(nat \<Rightarrow> Draws) \<Rightarrow> nat \<Rightarrow> Simulation \<Rightarrow> Output list \<Rightarrow> (nat \<times> Simulation \<times> Output list) option" where
  "main_loop rng k s out =
     (if isRunning s
      then (let s1 = Simulation_update (rng k) 1 s in
            case display s1 of
              None \<Rightarrow> None
            | Some frame \<Rightarrow> main_loop rng (Suc k) s1 (out @ [Frame frame]))
      else Some (k, s, out))"
  by pat_completeness auto
termination
proof (relation "measure (\<lambda>(rng, k, s, out). nat (60 - simTime s))")
  show "wf (measure (\<lambda>(rng, k, s, out). nat (60 - simTime s)))"
    by simp
next
  fix rng :: "nat \<Rightarrow> Draws" and k :: nat and s s1 :: Simulation and out :: "Output list"
    and frame :: "int \<times> (int \<times> LightState \<times> string) list"
  assume running: "isRunning s" and s1: "s1 = Simulation_update (rng k) 1 s"
  have "simTime s1 = simTime s + 1"
    unfolding s1
    by (simp add: Simulation_update_def update_lanes_def generateVehicle_def addVehicle_def
        Let_def case_prod_beta)
  then show "((rng, Suc k, s1, out @ [Frame frame]), (rng, k, s, out))
      \<in> measure (\<lambda>(rng, k, s, out). nat (60 - simTime s))"
    using running by (simp add: isRunning_def)
qed

text \<open>
  \<^verbatim>\<open>int main()\<close>: what was printed and the exit status. \<open>rng k\<close> are the draws of the
  tick after \<open>k\<close> iterations, the count \<open>k\<close> of iterations is kept for the statements
  about the loop, and the pause between two iterations is left out. \<^term>\<open>None\<close> is a run
  in which \<^verbatim>\<open>display\<close> wrote outside its buffer.
\<close>

definition main :: "(nat \<Rightarrow> Draws) \<Rightarrow> (Output list \<times> int) option" where
  "main rng =
     (case main_loop rng 0 (Simulation_setup Simulation_ctor) [] of
        None \<Rightarrow> None
      | Some (k, s, out) \<Rightarrow> Some (out @ [Text (''Simulation ended.'' @ [CHR 0x0A])], 0))"

section \<open>Vocabulary of the claims\<close>

text \<open>
  A sequence of calls of \<^verbatim>\<open>move\<close> on one vehicle. Each call comes with the lane
  objects as they are at that moment (the lights change between the calls) and with its
  time step.
\<close>

definition moves :: "(Lane list \<times> double) list \<Rightarrow> Vehicle \<Rightarrow> Vehicle" where
  "moves calls v = fold (\<lambda>(L, timeStep) w. move L timeStep w) calls v"

text \<open>
  The candidate position of \<^verbatim>\<open>move\<close>, and the stop-line rule in the words of the
  specification: the vehicle is in a lane whose light is not green, it stands before the
  stop line (10 m before the end of the lane) and the candidate position is on or behind
  that line.
\<close>

definition candidate :: "double \<Rightarrow> Vehicle \<Rightarrow> double" where
  "candidate timeStep v = position v + (speed v * D 1000 / D 3600) * timeStep"

definition stop_line_rule :: "Lane list \<Rightarrow> double \<Rightarrow> Vehicle \<Rightarrow> bool" where
  "stop_line_rule L timeStep v \<longleftrightarrow>
     (case currentLane v of
        None \<Rightarrow> False
      | Some l \<Rightarrow>
          state (light (L ! l)) \<noteq> GREEN \<and>
          position v < len (L ! l) - D 10 \<and>
          candidate timeStep v \<ge> len (L ! l) - D 10)"

text \<open>
  The heap after \<^verbatim>\<open>move\<close> has been called through each pointer of \<open>ps\<close>, in the order
  of the list.
\<close>

definition move_each :: "Lane list \<Rightarrow> double \<Rightarrow> nat list \<Rightarrow> Vehicle list \<Rightarrow> Vehicle list" where
  "move_each L timeStep ps h = fold (\<lambda>p h'. h'[p := move L timeStep (h' ! p)]) ps h"

text \<open>The index on the track that \<^verbatim>\<open>display\<close> computes for a vehicle of a lane.\<close>

definition track_index :: "Lane \<Rightarrow> Vehicle \<Rightarrow> int" where
  "track_index lane v = static_cast_int ((position v / len lane) * D 50)"

text \<open>The ticks of the program, one for each record of draws: \<^verbatim>\<open>update(1)\<close>.\<close>

definition run :: "Draws list \<Rightarrow> Simulation \<Rightarrow> Simulation" where
  "run ds s = fold (\<lambda>d. Simulation_update d 1) ds s"

text \<open>A pointer is in the vector of one of the lanes.\<close>

definition in_some_lane :: "Lane list \<Rightarrow> nat \<Rightarrow> bool" where
  "in_some_lane L p \<longleftrightarrow> (\<exists>lane \<in> set L. p \<in> set (vehicles lane))"

text \<open>Every pointer in the vector of a lane addresses an allocated vehicle.\<close>

definition ptrs_valid :: "Simulation \<Rightarrow> bool" where
  "ptrs_valid s \<longleftrightarrow> (\<forall>lane \<in> set (lanes s). \<forall>p \<in> set (vehicles lane). p < length (heap s))"

text \<open>\<^verbatim>\<open>Lane::update\<close> on the lanes with the indices \<open>is\<close>, one after the other.\<close>

definition update_each_lane :: "int \<Rightarrow> nat list \<Rightarrow> Lane list \<times> Vehicle list \<Rightarrow> Lane list \<times> Vehicle list" where
  "update_each_lane step is = fold (\<lambda>i. Lane_update i step) is"

text \<open>
  The ids of the vehicles allocated so far are pairwise different and below the counter.
\<close>

definition ids_fresh :: "Simulation \<Rightarrow> bool" where
  "ids_fresh s \<longleftrightarrow>
     distinct (map vid (heap s)) \<and> (\<forall>i \<in> set (map vid (heap s)). i < nextId s)"

text \<open>No pointer is twice in the vector of a lane.\<close>

definition lanes_distinct :: "Simulation \<Rightarrow> bool" where
  "lanes_distinct s \<longleftrightarrow> (\<forall>lane \<in> set (lanes s). distinct (vehicles lane))"


text \<open>
  What \<^verbatim>\<open>Simulation::update\<close> and \<^verbatim>\<open>generateVehicle\<close> make of the draws of a tick:
  whether a vehicle is generated, and its kind, speed and lane.
\<close>

definition spawns :: "Draws \<Rightarrow> bool" where
  "spawns d \<longleftrightarrow> uniform_real_distribution (D 0) (D 1) (coin d) < D (3 / 10)"

definition drawn_type :: "Draws \<Rightarrow> VehicleType" where
  "drawn_type d = static_cast_VehicleType (uniform_int_distribution 0 3 (typeDraw d))"

definition drawn_speed :: "Draws \<Rightarrow> double" where
  "drawn_speed d = uniform_real_distribution (D 20) (D 50) (speedDraw d)"

definition drawn_lane :: "Simulation \<Rightarrow> Draws \<Rightarrow> nat" where
  "drawn_lane s d = nat (uniform_int_distribution 0 (int (length (lanes s)) - 1) (laneDraw d))"
section \<open>Concrete objects for the instances\<close>

text \<open>
  Lane 1 of the program (its light is RED) and the same lane with a yellow light; a car of
  36 km/h (10 m/s) 11 m before the end of the lane, the same car 31 m before the end and
  at 100 m; a car whose candidate position is rounded onto the stop line (35.27999999999999
  km/h at 480.2 m: 480.2 + 9.8 exceeds no double below 490).
\<close>

definition lane_ex :: Lane where
  "lane_ex = Lane_ctor 1 (D 500) (D 50)"

definition lane_yellow :: Lane where
  "lane_yellow = lane_ex\<lparr>light := (light lane_ex)\<lparr>state := YELLOW\<rparr>\<rparr>"

definition lane_green :: Lane where
  "lane_green = lane_ex\<lparr>light := (light lane_ex)\<lparr>state := GREEN\<rparr>\<rparr>"

definition car_ex :: Vehicle where
  "car_ex = (Vehicle_ctor 1 CAR (D 36))\<lparr>position := D 489, currentLane := Some 0\<rparr>"

definition car_469 :: Vehicle where
  "car_469 = car_ex\<lparr>position := D 469\<rparr>"

definition car_100 :: Vehicle where
  "car_100 = car_ex\<lparr>position := D 100\<rparr>"

definition car_rounded :: Vehicle where
  "car_rounded = (Vehicle_ctor 1 CAR (D (3527999999999999 / 100000000000000)))
     \<lparr>position := D (4802 / 10), currentLane := Some 0\<rparr>"

text \<open>Lane 1 with two cars, 5 m and 400 m before its end.\<close>

definition lane_two :: Lane where
  "lane_two = (Lane_ctor 1 (D 500) (D 50))\<lparr>vehicles := [0, 1]\<rparr>"

definition heap_two :: "Vehicle list" where
  "heap_two = [car_ex\<lparr>position := D 495\<rparr>, car_ex\<lparr>position := D 100\<rparr>]"

text \<open>
  Lane 1 with a car 5 m behind the start, a bus at 290 m (where a vehicle of 36 km/h
  is after 29 ticks) and a truck behind the end.
\<close>

definition lane_three :: Lane where
  "lane_three = (Lane_ctor 1 (D 500) (D 50))\<lparr>vehicles := [0, 1, 2]\<rparr>"

definition heap_three :: "Vehicle list" where
  "heap_three = [car_ex\<lparr>position := D (- 5)\<rparr>, car_ex\<lparr>vtype := BUS, position := D 290\<rparr>,
                 car_ex\<lparr>vtype := TRUCK, position := D 505\<rparr>]"

text \<open>
  Draws for the instances: a run without vehicles, a run with a vehicle in every tick,
  the draws of a truck of 35 km/h for lane 2, and the same with the draw for
  \<^verbatim>\<open>update\<close> equal to the double \<^verbatim>\<open>0.3\<close>.
\<close>

definition quiet_rng :: "nat \<Rightarrow> Draws" where
  "quiet_rng k = \<lparr>coin = D (1 / 2), typeDraw = D 0, speedDraw = D 0, laneDraw = D 0\<rparr>"

definition busy_rng :: "nat \<Rightarrow> Draws" where
  "busy_rng k = \<lparr>coin = D (1 / 10), typeDraw = D (real (k mod 4) / 4),
                 speedDraw = D (real (k mod 30) / 30), laneDraw = D (real (k mod 2) / 2)\<rparr>"

definition truck_draws :: Draws where
  "truck_draws = \<lparr>coin = D (1 / 4), typeDraw = D (3 / 5), speedDraw = D (1 / 2),
                  laneDraw = D (7 / 10)\<rparr>"

definition edge_draws :: Draws where
  "edge_draws = truck_draws\<lparr>coin := D (3 / 10)\<rparr>"

text \<open>
  Draws for a run with a single vehicle: a car of 36 km/h (10 m in a tick) put into lane 1
  in the first tick. \<open>one_car k\<close> is that car after \<open>k\<close> ticks, \<open>one_car_state\<close> the
  state of the program with the car in lane 1 and \<open>one_car_gone\<close> the state after the car
  has left the lane in tick 50; \<open>t0\<close> and \<open>t1\<close> are the lights of the two lanes.
\<close>

definition one_car_rng :: "nat \<Rightarrow> Draws" where
  "one_car_rng k = \<lparr>coin = (if k = 0 then D (1 / 10) else D (1 / 2)), typeDraw = D 0,
                    speedDraw = D (16 / 30), laneDraw = D 0\<rparr>"

definition one_car :: "nat \<Rightarrow> Vehicle" where
  "one_car k = \<lparr>vid = 1, vtype = CAR, speed = D 36, position = D (real (10 * k)),
                currentLane = Some 0\<rparr>"

definition one_car_state :: "nat \<Rightarrow> TrafficLight \<Rightarrow> TrafficLight \<Rightarrow> Simulation" where
  "one_car_state k t0 t1 =
     \<lparr>lanes = [\<lparr>lid = 1, len = D 500, speedLimit = D 50, vehicles = [0], light = t0\<rparr>,
               \<lparr>lid = 2, len = D 600, speedLimit = D 40, vehicles = [], light = t1\<rparr>],
      all_vehicles = [0], nextId = 2, simTime = int k, heap = [one_car k]\<rparr>"

definition one_car_gone :: "TrafficLight \<Rightarrow> TrafficLight \<Rightarrow> Simulation" where
  "one_car_gone t0 t1 =
     \<lparr>lanes = [\<lparr>lid = 1, len = D 500, speedLimit = D 50, vehicles = [], light = t0\<rparr>,
               \<lparr>lid = 2, len = D 600, speedLimit = D 40, vehicles = [], light = t1\<rparr>],
      all_vehicles = [0], nextId = 2, simTime = 50, heap = [one_car 50]\<rparr>"

section \<open>Properties of the doubles\<close>

lemma powi_nat: "0 \<le> e \<Longrightarrow> (2::real) powi e = 2 ^ nat e"
  by (simp add: power_int_def)

lemma powi_neg: "0 \<le> e \<Longrightarrow> (2::real) powi (- e) = 1 / 2 ^ nat e"
  by (simp add: power_int_minus field_simps powi_nat)

lemma powi_Suc: "(2::real) powi (e + 1) = 2 * 2 powi e"
  by (simp add: power_int_add)

lemma powi_less_iff: "(2::real) powi a < 2 powi b \<longleftrightarrow> a < b"
proof
  assume "(2::real) powi a < 2 powi b"
  then have "\<not> (2::real) powi b \<le> 2 powi a"
    by simp
  then have "\<not> b \<le> a"
    using power_int_increasing [of b a "2::real"] by auto
  then show "a < b" by simp
next
  assume "a < b"
  then show "(2::real) powi a < 2 powi b"
    by (simp add: power_int_strict_increasing)
qed

lemma powi_le_iff: "(2::real) powi a \<le> 2 powi b \<longleftrightarrow> a \<le> b"
  using powi_less_iff [of b a] by (simp add: not_less [symmetric])

lemma ilog2_bounds:
  assumes "x \<noteq> 0"
  shows "2 powi (ilog2 x) \<le> \<bar>x\<bar>" and "\<bar>x\<bar> < 2 powi (ilog2 x + 1)"
proof -
  have "2 powi (ilog2 x) \<le> \<bar>x\<bar> \<and> \<bar>x\<bar> < 2 powi (ilog2 x + 1)"
  proof (cases "1 \<le> \<bar>x\<bar>")
    case True
    define n where "n = \<lfloor>\<bar>x\<bar>\<rfloor>"
    have n: "0 < n" "of_int n \<le> \<bar>x\<bar>" "\<bar>x\<bar> < of_int n + 1"
      using True unfolding n_def by linarith+
    have b: "2 ^ nat (bitlen n - 1) \<le> n" "n < 2 ^ nat (bitlen n)"
      using bitlen_bounds [OF n(1)] by simp_all
    have b1: "1 \<le> bitlen n"
      using n(1) bitlen_eq_zero_iff [of n] bitlen_nonneg [of n] by linarith
    have e: "ilog2 x = bitlen n - 1"
      using True by (simp add: ilog2_def n_def)
    have "(2::real) powi (bitlen n - 1) = of_int (2 ^ nat (bitlen n - 1))"
      using b1 by (simp add: powi_nat)
    also have "\<dots> \<le> of_int n"
      using b(1) by (simp only: of_int_le_iff)
    finally have lo: "2 powi (ilog2 x) \<le> \<bar>x\<bar>"
      using n(2) e by simp
    have "n + 1 \<le> 2 ^ nat (bitlen n)"
      using b(2) by simp
    then have "real_of_int (n + 1) \<le> of_int (2 ^ nat (bitlen n))"
      by (simp only: of_int_le_iff)
    then have "\<bar>x\<bar> < 2 ^ nat (bitlen n)"
      using n(3) by simp
    then have "\<bar>x\<bar> < 2 powi (ilog2 x + 1)"
      using b1 e by (simp add: powi_nat)
    with lo show ?thesis ..
  next
    case False
    define y where "y = 1 / \<bar>x\<bar>"
    have y: "1 < y" "0 < y"
      using False assms by (simp_all add: y_def)
    define n where "n = \<lceil>y\<rceil> - 1"
    have n: "0 < n" "of_int n < y" "y \<le> of_int n + 1"
      using y unfolding n_def by linarith+
    define m where "m = bitlen n"
    have b: "2 ^ nat (m - 1) \<le> n" "n < 2 ^ nat m"
      using bitlen_bounds [OF n(1)] by (simp_all add: m_def)
    have m1: "1 \<le> m"
      using n(1) bitlen_eq_zero_iff [of n] bitlen_nonneg [of n] unfolding m_def by linarith
    have e: "ilog2 x = - m"
      using False by (simp add: ilog2_def n_def m_def y_def)
    have "n + 1 \<le> 2 ^ nat m"
      using b(2) by simp
    then have "real_of_int (n + 1) \<le> of_int (2 ^ nat m)"
      by (simp only: of_int_le_iff)
    then have "y \<le> 2 ^ nat m"
      using n(3) by simp
    then have "1 / 2 ^ nat m \<le> 1 / y"
      using y(2) by (simp add: frac_le)
    then have lo: "2 powi (ilog2 x) \<le> \<bar>x\<bar>"
      using m1 e by (simp add: powi_neg y_def)
    have "real_of_int (2 ^ nat (m - 1)) \<le> of_int n"
      using b(1) by (simp only: of_int_le_iff)
    then have "2 ^ nat (m - 1) \<le> real_of_int n"
      by simp
    then have "2 ^ nat (m - 1) < y"
      using n(2) by linarith
    then have "1 / y < 1 / 2 ^ nat (m - 1)"
      by (simp add: frac_less2)
    moreover have "(2::real) powi (- m + 1) = 1 / 2 ^ nat (m - 1)"
      using m1 powi_neg [of "m - 1"] by simp
    ultimately have "\<bar>x\<bar> < 2 powi (ilog2 x + 1)"
      using e by (simp add: y_def)
    with lo show ?thesis ..
  qed
  then show "2 powi (ilog2 x) \<le> \<bar>x\<bar>" and "\<bar>x\<bar> < 2 powi (ilog2 x + 1)"
    by simp_all
qed

lemma ilog2_unique:
  assumes "2 powi e \<le> \<bar>x\<bar>" and "\<bar>x\<bar> < 2 powi (e + 1)"
  shows "ilog2 x = e"
proof -
  have "(0::real) < 2 powi e"
    by simp
  then have "0 < \<bar>x\<bar>"
    using assms(1) by linarith
  then have "x \<noteq> 0"
    by simp
  note b = ilog2_bounds [OF this]
  have "(2::real) powi (ilog2 x) < 2 powi (e + 1)"
    using b(1) assms(2) by linarith
  then have "ilog2 x < e + 1"
    by (simp add: powi_less_iff)
  moreover have "(2::real) powi e < 2 powi (ilog2 x + 1)"
    using b(2) assms(1) by linarith
  then have "e < ilog2 x + 1"
    by (simp add: powi_less_iff)
  ultimately show ?thesis by simp
qed


lemma rhe_of_int [simp]: "round_half_even (of_int k) = k"
  by (simp add: round_half_even_def)

lemma rhe_close: "\<bar>of_int (round_half_even y) - y\<bar> \<le> 1 / 2"
  unfolding round_half_even_def Let_def by (auto simp: abs_le_iff)

lemma rhe_mono: "x \<le> y \<Longrightarrow> round_half_even x \<le> round_half_even y"
proof -
  assume xy: "x \<le> y"
  have fl: "\<lfloor>x\<rfloor> \<le> \<lfloor>y\<rfloor>"
    using xy by (rule floor_mono)
  show ?thesis
  proof (cases "\<lfloor>x\<rfloor> = \<lfloor>y\<rfloor>")
    case True
    then show ?thesis
      using xy unfolding round_half_even_def Let_def by auto
  next
    case False
    then have "\<lfloor>x\<rfloor> + 1 \<le> \<lfloor>y\<rfloor>"
      using fl by simp
    moreover have "round_half_even x \<le> \<lfloor>x\<rfloor> + 1"
      unfolding round_half_even_def Let_def by auto
    moreover have "\<lfloor>y\<rfloor> \<le> round_half_even y"
      unfolding round_half_even_def Let_def by auto
    ultimately show ?thesis by linarith
  qed
qed

lemma rhe_minus: "round_half_even (- y) = - round_half_even y"
proof (cases "y \<in> \<int>")
  case True
  then obtain k where "y = of_int k"
    by (auto elim: Ints_cases)
  then show ?thesis
    using rhe_of_int [of "- k"] by simp
next
  case False
  have ne: "y \<noteq> of_int \<lfloor>y\<rfloor>"
    using False by (metis Ints_of_int)
  then have f: "\<lfloor>- y\<rfloor> = - \<lfloor>y\<rfloor> - 1"
    by (simp add: floor_minus ceiling_altdef)
  from ne have "y - of_int \<lfloor>y\<rfloor> \<noteq> 0"
    by simp
  moreover have "0 \<le> y - of_int \<lfloor>y\<rfloor>"
    by simp
  ultimately have "0 < y - of_int \<lfloor>y\<rfloor>"
    by linarith
  then show ?thesis
    unfolding round_half_even_def Let_def f by auto
qed

lemma rhe_ge: "of_int k \<le> y \<Longrightarrow> k \<le> round_half_even y"
  using rhe_mono [of "of_int k" y] by simp

lemma rhe_le: "y \<le> of_int k \<Longrightarrow> round_half_even y \<le> k"
  using rhe_mono [of y "of_int k"] by simp


lemma ilog2_minus [simp]: "ilog2 (- x) = ilog2 x"
  by (simp add: ilog2_def)

lemma round_double_0 [simp]: "round_double 0 = 0"
  by (simp add: round_double_def)

lemma round_double_minus: "round_double (- x) = - round_double x"
  by (simp add: round_double_def Let_def rhe_minus)

lemma powi_52: "(2::real) powi e / 2 powi (e - 52) = 2 ^ 52"
proof -
  have "(2::real) powi ((e - 52) + 52) = 2 powi (e - 52) * 2 powi 52"
    by (rule power_int_add) simp
  then have "(2::real) powi e = 2 powi (e - 52) * 2 ^ 52"
    by simp
  then show ?thesis
    by simp
qed

lemma powi_53: "(2::real) powi (e + 1) / 2 powi (e - 52) = 2 ^ 53"
proof -
  have "(2::real) powi ((e - 52) + 53) = 2 powi (e - 52) * 2 powi 53"
    by (rule power_int_add) simp
  moreover have "(e - 52) + 53 = e + 1"
    by simp
  ultimately have "(2::real) powi (e + 1) = 2 powi (e - 52) * 2 ^ 53"
    by simp
  then show ?thesis
    by simp
qed

lemma scaled_bounds:
  assumes "0 < x"
  shows "2 ^ 52 \<le> x / 2 powi (ilog2 x - 52)" and "x / 2 powi (ilog2 x - 52) < 2 ^ 53"
proof -
  have x: "x \<noteq> 0" "\<bar>x\<bar> = x"
    using assms by simp_all
  note b = ilog2_bounds [OF x(1), unfolded x(2)]
  have q: "(0::real) < 2 powi (ilog2 x - 52)"
    by simp
  have "2 powi (ilog2 x) / 2 powi (ilog2 x - 52) \<le> x / 2 powi (ilog2 x - 52)"
    using b(1) q by (simp add: divide_right_mono)
  then show "2 ^ 52 \<le> x / 2 powi (ilog2 x - 52)"
    by (simp only: powi_52)
  have "x / 2 powi (ilog2 x - 52) < 2 powi (ilog2 x + 1) / 2 powi (ilog2 x - 52)"
    using b(2) q by (simp add: divide_strict_right_mono)
  then show "x / 2 powi (ilog2 x - 52) < 2 ^ 53"
    by (simp only: powi_53)
qed

lemma mantissa_bounds:
  assumes "0 < x"
  shows "2 ^ 52 \<le> round_half_even (x / 2 powi (ilog2 x - 52))"
    and "round_half_even (x / 2 powi (ilog2 x - 52)) \<le> 2 ^ 53"
proof -
  have "real_of_int (2 ^ 52) \<le> x / 2 powi (ilog2 x - 52)"
    using scaled_bounds(1) [OF assms] by simp
  then show "2 ^ 52 \<le> round_half_even (x / 2 powi (ilog2 x - 52))"
    by (rule rhe_ge)
  have "x / 2 powi (ilog2 x - 52) \<le> real_of_int (2 ^ 53)"
    using scaled_bounds(2) [OF assms] by simp
  then show "round_half_even (x / 2 powi (ilog2 x - 52)) \<le> 2 ^ 53"
    by (rule rhe_le)
qed

lemma round_double_pos_eq:
  "0 < x \<Longrightarrow> round_double x = of_int (round_half_even (x / 2 powi (ilog2 x - 52))) * 2 powi (ilog2 x - 52)"
  by (simp add: round_double_def Let_def)

lemma round_double_pos_bounds:
  assumes "0 < x"
  shows "2 powi (ilog2 x) \<le> round_double x" and "round_double x \<le> 2 powi (ilog2 x + 1)"
proof -
  define q :: real where "q = 2 powi (ilog2 x - 52)"
  define k where "k = round_half_even (x / q)"
  have q: "0 < q" by (simp add: q_def)
  have r: "round_double x = of_int k * q"
    using assms by (simp add: round_double_pos_eq q_def k_def)
  have lo: "2 ^ 52 * q = 2 powi (ilog2 x)"
    using powi_52 [of "ilog2 x"] q by (simp add: field_simps q_def)
  have hi: "2 ^ 53 * q = 2 powi (ilog2 x + 1)"
    using powi_53 [of "ilog2 x"] q by (simp add: field_simps q_def)
  have "real_of_int (2 ^ 52) \<le> of_int k"
    using mantissa_bounds(1) [OF assms] unfolding k_def q_def by (simp only: of_int_le_iff)
  then have "2 ^ 52 \<le> real_of_int k"
    by simp
  then have "2 ^ 52 * q \<le> of_int k * q"
    using q by (rule mult_right_mono [OF _ less_imp_le])
  then show "2 powi (ilog2 x) \<le> round_double x"
    unfolding r lo .
  have "real_of_int k \<le> of_int (2 ^ 53)"
    using mantissa_bounds(2) [OF assms] unfolding k_def q_def by (simp only: of_int_le_iff)
  then have "real_of_int k \<le> 2 ^ 53"
    by simp
  then have "of_int k * q \<le> 2 ^ 53 * q"
    using q by (rule mult_right_mono [OF _ less_imp_le])
  then show "round_double x \<le> 2 powi (ilog2 x + 1)"
    unfolding r hi .
qed

lemma round_double_pos: "0 < x \<Longrightarrow> 0 < round_double x"
  using round_double_pos_bounds(1) [of x] zero_less_power_int [of "2::real" "ilog2 x"]
  by linarith

lemma round_double_exact:
  assumes "x / 2 powi (ilog2 x - 52) \<in> \<int>"
  shows "round_double x = x"
proof (cases "x = 0")
  case True
  then show ?thesis by simp
next
  case False
  obtain k where k: "x / 2 powi (ilog2 x - 52) = of_int k"
    using assms by (auto elim: Ints_cases)
  have "(0::real) < 2 powi (ilog2 x - 52)" by simp
  then have "x = of_int k * 2 powi (ilog2 x - 52)"
    using k by (simp add: field_simps)
  then show ?thesis
    using False by (simp add: round_double_def Let_def k)
qed


lemma round_double_idem_pos:
  assumes "0 < x"
  shows "round_double (round_double x) = round_double x"
proof -
  define e where "e = ilog2 x"
  define q :: real where "q = 2 powi (e - 52)"
  define k where "k = round_half_even (x / q)"
  define r where "r = round_double x"
  have q: "0 < q" by (simp add: q_def)
  have r: "r = of_int k * q"
    using assms by (simp add: r_def round_double_pos_eq q_def k_def e_def)
  have rpos: "0 < r" "\<bar>r\<bar> = r"
    using round_double_pos [OF assms] by (simp_all add: r_def)
  have lo: "2 powi e \<le> r" and hi: "r \<le> 2 powi (e + 1)"
    using round_double_pos_bounds [OF assms] by (simp_all add: r_def e_def)
  have top: "2 ^ 53 * q = 2 powi (e + 1)"
    using powi_53 [of e] q by (simp add: field_simps q_def)
  have k53: "k \<le> 2 ^ 53"
    using mantissa_bounds(2) [OF assms] by (simp add: k_def q_def e_def)
  have "r / 2 powi (ilog2 r - 52) \<in> \<int>"
  proof (cases "k = 2 ^ 53")
    case True
    then have r2: "r = 2 powi (e + 1)"
      using top by (simp add: r)
    have "(2::real) powi (e + 1) < 2 powi (e + 1 + 1)"
      by (simp add: powi_less_iff)
    then have "ilog2 r = e + 1"
      using rpos(2) r2 by (intro ilog2_unique) simp_all
    then have "r / 2 powi (ilog2 r - 52) = 2 ^ 52"
      using powi_52 [of "e + 1"] by (simp add: r2)
    then show ?thesis
      by simp
  next
    case False
    then have "k + 1 \<le> 2 ^ 53"
      using k53 by simp
    then have "real_of_int (k + 1) \<le> of_int (2 ^ 53)"
      by (simp only: of_int_le_iff)
    then have "real_of_int k < 2 ^ 53"
      by simp
    then have "of_int k * q < 2 ^ 53 * q"
      using q by (simp add: mult_strict_right_mono)
    then have "r < 2 powi (e + 1)"
      by (simp only: r top)
    then have "ilog2 r = e"
      using lo rpos(2) by (intro ilog2_unique) simp_all
    then have "r / 2 powi (ilog2 r - 52) = of_int k"
      using q by (simp add: r q_def)
    then show ?thesis
      by simp
  qed
  then show ?thesis
    unfolding r_def by (rule round_double_exact)
qed

lemma round_double_idem [simp]: "round_double (round_double x) = round_double x"
proof -
  consider "0 < x" | "x = 0" | "0 < - x"
    by linarith
  then show ?thesis
  proof cases
    case 1
    then show ?thesis by (rule round_double_idem_pos)
  next
    case 2
    then show ?thesis by simp
  next
    case 3
    then have "round_double (round_double (- x)) = round_double (- x)"
      by (rule round_double_idem_pos)
    then show ?thesis
      by (simp add: round_double_minus)
  qed
qed

lemma ilog2_mono_pos:
  assumes "0 < x" and "x \<le> y"
  shows "ilog2 x \<le> ilog2 y"
proof -
  have x: "x \<noteq> 0" "\<bar>x\<bar> = x" and y: "y \<noteq> 0" "\<bar>y\<bar> = y"
    using assms by simp_all
  have "2 powi (ilog2 x) \<le> x"
    using ilog2_bounds(1) [OF x(1)] x(2) by simp
  moreover have "y < 2 powi (ilog2 y + 1)"
    using ilog2_bounds(2) [OF y(1)] y(2) by simp
  ultimately have "(2::real) powi (ilog2 x) < 2 powi (ilog2 y + 1)"
    using assms(2) by linarith
  then show ?thesis
    by (simp add: powi_less_iff)
qed

lemma round_double_mono_pos:
  assumes "0 < x" and "x \<le> y"
  shows "round_double x \<le> round_double y"
proof (cases "ilog2 x = ilog2 y")
  case True
  have y: "0 < y" using assms by linarith
  define q :: real where "q = 2 powi (ilog2 y - 52)"
  have q: "0 < q" by (simp add: q_def)
  have "x / q \<le> y / q"
    using assms(2) q by (simp add: divide_right_mono)
  then have "round_half_even (x / q) \<le> round_half_even (y / q)"
    by (rule rhe_mono)
  then have "real_of_int (round_half_even (x / q)) \<le> of_int (round_half_even (y / q))"
    by (simp only: of_int_le_iff)
  then have "of_int (round_half_even (x / q)) * q \<le> of_int (round_half_even (y / q)) * q"
    using q by (simp add: mult_right_mono)
  then show ?thesis
    using assms(1) y True by (simp add: round_double_pos_eq q_def)
next
  case False
  have y: "0 < y" using assms by linarith
  have "ilog2 x + 1 \<le> ilog2 y"
    using ilog2_mono_pos [OF assms] False by simp
  then have "(2::real) powi (ilog2 x + 1) \<le> 2 powi (ilog2 y)"
    by (simp only: powi_le_iff)
  then show ?thesis
    using round_double_pos_bounds(2) [OF assms(1)] round_double_pos_bounds(1) [OF y]
    by linarith
qed

lemma round_double_mono: "x \<le> y \<Longrightarrow> round_double x \<le> round_double y"
proof -
  assume xy: "x \<le> y"
  consider "0 < x" | "x \<le> 0" "0 \<le> y" | "y < 0"
    by linarith
  then show ?thesis
  proof cases
    case 1
    then show ?thesis using xy by (rule round_double_mono_pos)
  next
    case 2
    have "round_double x \<le> 0"
    proof (cases "x = 0")
      case True then show ?thesis by simp
    next
      case False
      then have "0 < round_double (- x)"
        using 2(1) by (intro round_double_pos) simp
      then show ?thesis by (simp add: round_double_minus)
    qed
    moreover have "0 \<le> round_double y"
    proof (cases "y = 0")
      case True then show ?thesis by simp
    next
      case False
      then have "0 < round_double y"
        using 2(2) by (intro round_double_pos) simp
      then show ?thesis by simp
    qed
    ultimately show ?thesis by linarith
  next
    case 3
    then have "round_double (- y) \<le> round_double (- x)"
      using xy by (intro round_double_mono_pos) simp_all
    then show ?thesis
      by (simp add: round_double_minus)
  qed
qed

lemma round_double_of_int:
  assumes "\<bar>k\<bar> \<le> 2 ^ 53"
  shows "round_double (of_int k) = of_int k"
proof (cases "k = 0")
  case True
  then show ?thesis by simp
next
  case False
  define x :: real where "x = of_int k"
  have x0: "x \<noteq> 0" using False by (simp add: x_def)
  have "2 powi (ilog2 x) \<le> \<bar>x\<bar>"
    using ilog2_bounds(1) [OF x0] .
  also have "\<bar>x\<bar> \<le> 2 ^ 53"
  proof -
    have "real_of_int \<bar>k\<bar> \<le> of_int (2 ^ 53)"
      using assms by (simp only: of_int_le_iff)
    then show ?thesis by (simp add: x_def)
  qed
  also have "(2::real) ^ 53 = 2 powi 53"
    by simp
  finally have e: "ilog2 x \<le> 53"
    by (simp only: powi_le_iff)
  show ?thesis
  proof (cases "ilog2 x \<le> 52")
    case True
    define n where "n = nat (52 - ilog2 x)"
    have "(2::real) powi (ilog2 x - 52) = 1 / 2 ^ n"
      using True powi_neg [of "52 - ilog2 x"] by (simp add: n_def)
    then have "x / 2 powi (ilog2 x - 52) = of_int (k * 2 ^ n)"
      by (simp add: x_def)
    then have "x / 2 powi (ilog2 x - 52) \<in> \<int>"
      by (simp only: Ints_of_int)
    then show ?thesis
      unfolding x_def [symmetric] by (rule round_double_exact)
  next
    case False
    then have e53: "ilog2 x = 53" using e by simp
    have "2 ^ 53 \<le> \<bar>x\<bar>"
      using ilog2_bounds(1) [OF x0] e53 by simp
    then have ax: "\<bar>x\<bar> = 2 ^ 53"
      using \<open>\<bar>x\<bar> \<le> 2 ^ 53\<close> by linarith
    then have "x / 2 powi (ilog2 x - 52) = x / 2"
      using e53 by simp
    moreover have "x = 2 ^ 53 \<or> x = - (2 ^ 53)"
      using ax by (auto simp: abs_if split: if_splits)
    ultimately have "x / 2 powi (ilog2 x - 52) = of_int (2 ^ 52) \<or>
        x / 2 powi (ilog2 x - 52) = of_int (- (2 ^ 52))"
      by auto
    then have "x / 2 powi (ilog2 x - 52) \<in> \<int>"
      by (metis Ints_of_int)
    then show ?thesis
      unfolding x_def [symmetric] by (rule round_double_exact)
  qed
qed


lemma val_D [simp]: "val (D r) = round_double r"
  by (simp add: D_def Abs_double_inverse)

lemma round_double_val [simp]: "round_double (val a) = val a"
  using val [of a] by simp

lemma D_val [simp]: "D (val a) = a"
  by (simp add: D_def val_inverse)

lemma double_eq_iff: "a = b \<longleftrightarrow> val a = val b"
  by (simp add: val_inject)

lemma val_arith [simp]:
  "val (0 :: double) = 0"
  "val ((a :: double) + b) = round_double (val a + val b)"
  "val ((a :: double) - b) = round_double (val a - val b)"
  "val ((a :: double) * b) = round_double (val a * val b)"
  "val ((a :: double) / b) = round_double (val a / val b)"
  by (simp_all add: zero_double_def plus_double_def minus_double_def times_double_def
      divide_double_def)

lemma round_double_fast [code]:
  "round_double x =
     (if of_int \<lfloor>x\<rfloor> = x \<and> \<bar>x\<bar> \<le> 9007199254740992 then x
      else if x = 0 then 0
      else (let q = 2 powi (ilog2 x - 52) in of_int (round_half_even (x / q)) * q))"
proof (cases "of_int \<lfloor>x\<rfloor> = x \<and> \<bar>x\<bar> \<le> 9007199254740992")
  case True
  then have x: "of_int \<lfloor>x\<rfloor> = x" and bound: "\<bar>x\<bar> \<le> 9007199254740992"
    by blast+
  have "real_of_int \<bar>\<lfloor>x\<rfloor>\<bar> = \<bar>x\<bar>"
    by (simp only: of_int_abs x)
  then have "real_of_int \<bar>\<lfloor>x\<rfloor>\<bar> \<le> 9007199254740992"
    using bound by (simp only:)
  then have "\<bar>\<lfloor>x\<rfloor>\<bar> \<le> 9007199254740992"
    by linarith
  then have "\<bar>\<lfloor>x\<rfloor>\<bar> \<le> 2 ^ 53"
    by simp
  then have "round_double (of_int \<lfloor>x\<rfloor>) = of_int \<lfloor>x\<rfloor>"
    by (rule round_double_of_int)
  then have "round_double x = x"
    by (simp only: x)
  then show ?thesis
    using x bound by (simp only: if_True simp_thms)
next
  case False
  show ?thesis
    by (simp only: False if_False round_double_def)
qed
declare val_inverse [code abstype]

declare val_D [code abstract]


section \<open>The traffic light\<close>

lemma TrafficLight_update_cycle:
  "TrafficLight_update step l =
     (if dwell l \<le> timer l + step
      then l\<lparr>state := next_on_cycle (state l), timer := 0\<rparr>
      else l\<lparr>timer := timer l + step\<rparr>)"
  by (cases "state l") (simp_all add: TrafficLight_update_def dwell_def Let_def)

lemma green_count:
  "n < 10 \<Longrightarrow>
   TrafficLight_updates (replicate n 1) ((TrafficLight_ctor 10 3 7)\<lparr>state := GREEN\<rparr>) =
     (TrafficLight_ctor 10 3 7)\<lparr>state := GREEN, timer := int n\<rparr>"
proof (induction n)
  case 0
  then show ?case by (simp add: TrafficLight_updates_def TrafficLight_ctor_def)
next
  case (Suc n)
  have "replicate (Suc n) (1::int) = replicate n 1 @ [1]"
    by (simp add: replicate_append_same)
  then show ?case using Suc
    by (simp add: TrafficLight_updates_def TrafficLight_ctor_def TrafficLight_update_cycle dwell_def)
qed

text \<open>
  Claim C3. One call \<^verbatim>\<open>update(step)\<close> adds \<open>step\<close> to the timer; when the sum has
  reached the dwell duration of the current state, the light goes to the next state of the
  cycle GREEN, YELLOW, RED, GREEN and the timer is 0 (the excess is dropped); otherwise only
  the timer changes. As every call is of this form, no sequence of calls leaves the cycle.
  With the durations 10, 3, 7 of \<^verbatim>\<open>Lane\<close>, a green light with timer 0 is still green
  after fewer than ten calls \<^verbatim>\<open>update(1)\<close> and yellow after the tenth.
\<close>

theorem light_cycle:
  "TrafficLight_update step l =
     (if dwell l \<le> timer l + step
      then l\<lparr>state := next_on_cycle (state l), timer := 0\<rparr>
      else l\<lparr>timer := timer l + step\<rparr>) \<and>
   (\<forall>n < 10. state (TrafficLight_updates (replicate n 1)
                      ((TrafficLight_ctor 10 3 7)\<lparr>state := GREEN\<rparr>)) = GREEN) \<and>
   state (TrafficLight_updates (replicate 10 1)
            ((TrafficLight_ctor 10 3 7)\<lparr>state := GREEN\<rparr>)) = YELLOW"
proof -
  have "replicate 10 (1::int) = replicate (Suc 9) 1"
    by simp
  then have "replicate 10 (1::int) = replicate 9 1 @ [1]"
    by (simp only: replicate_Suc replicate_append_same)
  then have "TrafficLight_updates (replicate 10 1) ((TrafficLight_ctor 10 3 7)\<lparr>state := GREEN\<rparr>) =
      TrafficLight_update 1 ((TrafficLight_ctor 10 3 7)\<lparr>state := GREEN, timer := 9\<rparr>)"
    using green_count [of 9] by (simp add: TrafficLight_updates_def)
  then have ten: "state (TrafficLight_updates (replicate 10 1)
      ((TrafficLight_ctor 10 3 7)\<lparr>state := GREEN\<rparr>)) = YELLOW"
    by (simp add: TrafficLight_update_cycle dwell_def TrafficLight_ctor_def)
  have before: "\<forall>n < 10. state (TrafficLight_updates (replicate n 1)
      ((TrafficLight_ctor 10 3 7)\<lparr>state := GREEN\<rparr>)) = GREEN"
    by (simp add: green_count)
  show ?thesis
    using ten before TrafficLight_update_cycle [of step l] by blast
qed

theorem light_cycle_witness:
  "TrafficLight_update 4 ((TrafficLight_ctor 10 3 7)\<lparr>state := YELLOW, timer := 1\<rparr>) =
     (TrafficLight_ctor 10 3 7)\<lparr>state := RED, timer := 0\<rparr> \<and>
   (9::nat) < 10 \<and>
   state (TrafficLight_updates (replicate 9 1) ((TrafficLight_ctor 10 3 7)\<lparr>state := GREEN\<rparr>)) = GREEN"
proof -
  note c = light_cycle [of 4 "(TrafficLight_ctor 10 3 7)\<lparr>state := YELLOW, timer := 1\<rparr>"]
  have "TrafficLight_update 4 ((TrafficLight_ctor 10 3 7)\<lparr>state := YELLOW, timer := 1\<rparr>) =
     (TrafficLight_ctor 10 3 7)\<lparr>state := RED, timer := 0\<rparr>"
    using c [THEN conjunct1] by (simp add: dwell_def TrafficLight_ctor_def)
  moreover have "state (TrafficLight_updates (replicate 9 1)
      ((TrafficLight_ctor 10 3 7)\<lparr>state := GREEN\<rparr>)) = GREEN"
    using c [THEN conjunct2, THEN conjunct1, rule_format, of 9] by simp
  ultimately show ?thesis by simp
qed

section \<open>The motion of one vehicle\<close>

lemma round_double_nonneg: "0 \<le> x \<Longrightarrow> 0 \<le> round_double x"
  using round_double_mono [of 0 x] by simp

lemma move_cases:
  "currentLane v = Some l \<Longrightarrow>
   move L timeStep v =
     (if stop_line_rule L timeStep v then v\<lparr>speed := D 0\<rparr>
      else v\<lparr>position := candidate timeStep v\<rparr>)"
  by (simp add: move_def stop_line_rule_def candidate_def getState_def Let_def)

lemma candidate_stopped: "speed v = D 0 \<Longrightarrow> candidate timeStep v = position v"
  by (simp add: candidate_def double_eq_iff)

lemma move_stopped: "speed v = D 0 \<Longrightarrow> move L timeStep v = v"
proof (cases "currentLane v")
  case None
  then show ?thesis by (simp add: move_def)
next
  case (Some l)
  assume stopped: "speed v = D 0"
  have "\<not> stop_line_rule L timeStep v"
    by (simp add: stop_line_rule_def Some candidate_stopped [OF stopped] less_double_def
        less_eq_double_def)
  then show ?thesis
    by (simp add: move_cases [OF Some] candidate_stopped [OF stopped])
qed

lemma moves_stopped: "speed v = D 0 \<Longrightarrow> moves calls v = v"
  unfolding moves_def
  by (induction calls) (auto simp: move_stopped)

lemma move_currentLane: "currentLane (move L timeStep v) = currentLane v"
  by (cases "currentLane v") (simp_all add: move_def Let_def)

lemma moves_currentLane: "currentLane (moves calls v) = currentLane v"
  unfolding moves_def
  by (induction calls arbitrary: v) (auto simp: move_currentLane)

lemma move_speed_nonneg: "D 0 \<le> speed v \<Longrightarrow> D 0 \<le> speed (move L timeStep v)"
  by (cases "currentLane v") (simp_all add: move_def Let_def less_eq_double_def)

lemma displacement_nonneg:
  assumes "D 0 \<le> speed v" and "D 0 \<le> timeStep"
  shows "0 \<le> val ((speed v * D 1000 / D 3600) * timeStep)"
proof -
  have s: "0 \<le> val (speed v)" and t: "0 \<le> val timeStep"
    using assms by (simp_all add: less_eq_double_def)
  have "0 \<le> val (speed v) * round_double 1000"
    using s by (intro mult_nonneg_nonneg round_double_nonneg) simp_all
  then have "0 \<le> round_double (val (speed v) * round_double 1000)"
    by (rule round_double_nonneg)
  moreover have "0 \<le> round_double 3600"
    by (rule round_double_nonneg) simp
  ultimately have "0 \<le> round_double (val (speed v) * round_double 1000) / round_double 3600"
    by (rule divide_nonneg_nonneg)
  then have "0 \<le> round_double (round_double (val (speed v) * round_double 1000) / round_double 3600)"
    by (rule round_double_nonneg)
  then have "0 \<le> round_double (round_double (val (speed v) * round_double 1000) / round_double 3600)
      * val timeStep"
    using t by (rule mult_nonneg_nonneg)
  then show ?thesis
    by (simp add: round_double_nonneg)
qed

lemma candidate_mono:
  assumes "D 0 \<le> speed v" and "D 0 \<le> timeStep"
  shows "position v \<le> candidate timeStep v"
proof -
  have "val (position v) \<le> val (position v) + val ((speed v * D 1000 / D 3600) * timeStep)"
    using displacement_nonneg [OF assms] by simp
  then have "round_double (val (position v)) \<le>
      round_double (val (position v) + val ((speed v * D 1000 / D 3600) * timeStep))"
    by (rule round_double_mono)
  then show ?thesis
    by (simp add: candidate_def less_eq_double_def)
qed

lemma move_position_mono:
  "D 0 \<le> speed v \<Longrightarrow> D 0 \<le> timeStep \<Longrightarrow> position v \<le> position (move L timeStep v)"
proof (cases "currentLane v")
  case None
  then show ?thesis by (simp add: move_def less_eq_double_def)
next
  case (Some l)
  assume "D 0 \<le> speed v" "D 0 \<le> timeStep"
  then show ?thesis
    using candidate_mono [of v timeStep] by (simp add: move_cases [OF Some] less_eq_double_def)
qed

lemma moves_mono:
  "D 0 \<le> speed v \<Longrightarrow> \<forall>(L, timeStep) \<in> set calls. D 0 \<le> timeStep \<Longrightarrow>
   position v \<le> position (moves calls v) \<and> D 0 \<le> speed (moves calls v)"
proof (induction calls arbitrary: v)
  case Nil
  then show ?case by (simp add: moves_def less_eq_double_def)
next
  case (Cons c calls)
  obtain L t where c: "c = (L, t)" by (cases c)
  have t: "D 0 \<le> t" using Cons.prems(2) c by simp
  have first: "position v \<le> position (move L t v)" "D 0 \<le> speed (move L t v)"
    using Cons.prems(1) t by (simp_all add: move_position_mono move_speed_nonneg)
  have "position (move L t v) \<le> position (moves calls (move L t v)) \<and>
        D 0 \<le> speed (moves calls (move L t v))"
    using Cons.IH [of "move L t v"] Cons.prems(2) first(2) by simp
  with first show ?case
    by (auto simp add: moves_def c less_eq_double_def)
qed

text \<open>
  A vehicle with at least 3.6 km/h covers at least 1 m in a step of at least 1, and then the
  candidate position is a larger double than the position.
\<close>

lemma displacement_ge_1:
  assumes "18 / 5 \<le> val (speed v)" and "1 \<le> val timeStep"
  shows "1 \<le> val ((speed v * D 1000 / D 3600) * timeStep)"
proof -
  have c: "round_double 1000 = 1000" "round_double 3600 = 3600" "round_double 1 = 1"
    using round_double_of_int [of 1000] round_double_of_int [of 3600] round_double_of_int [of 1]
    by simp_all
  have "3600 \<le> val (speed v) * 1000"
    using assms(1) by simp
  then have "round_double 3600 \<le> round_double (val (speed v) * 1000)"
    by (rule round_double_mono)
  then have "1 \<le> round_double (val (speed v) * 1000) / 3600"
    by (simp add: c)
  then have "round_double 1 \<le> round_double (round_double (val (speed v) * 1000) / 3600)"
    by (rule round_double_mono)
  then have m: "1 \<le> round_double (round_double (val (speed v) * 1000) / 3600)"
    by (simp add: c)
  then have "1 * 1 \<le> round_double (round_double (val (speed v) * 1000) / 3600) * val timeStep"
    using assms(2) by (intro mult_mono) simp_all
  then have "round_double 1 \<le>
      round_double (round_double (round_double (val (speed v) * 1000) / 3600) * val timeStep)"
    by (intro round_double_mono) simp
  then show ?thesis
    by (simp add: c)
qed

lemma candidate_advances:
  assumes "18 / 5 \<le> val (speed v)" and "1 \<le> val timeStep"
    and "\<bar>val (position v)\<bar> \<le> 2 ^ 52"
  shows "position v < candidate timeStep v"
proof -
  define p where "p = val (position v)"
  define m where "m = \<lfloor>p\<rfloor> + 1"
  have m: "p < of_int m" "of_int m \<le> p + 1"
    unfolding m_def by linarith+
  have "real_of_int \<bar>m\<bar> \<le> 2 ^ 52 + 1"
    using assms(3) m unfolding p_def [symmetric] by (simp add: abs_if split: if_splits)
  then have "real_of_int \<bar>m\<bar> \<le> real_of_int (2 ^ 53)"
    by simp
  then have "\<bar>m\<bar> \<le> 2 ^ 53"
    by (simp only: of_int_le_iff)
  then have exact: "round_double (of_int m) = of_int m"
    by (rule round_double_of_int)
  have "of_int m \<le> p + val ((speed v * D 1000 / D 3600) * timeStep)"
    using m(2) displacement_ge_1 [OF assms(1,2)] by linarith
  then have "round_double (of_int m) \<le>
      round_double (p + val ((speed v * D 1000 / D 3600) * timeStep))"
    by (rule round_double_mono)
  then have "p < round_double (p + val ((speed v * D 1000 / D 3600) * timeStep))"
    using m(1) exact by linarith
  then show ?thesis
    by (simp add: candidate_def less_double_def p_def)
qed

text \<open>
  Claim C1. For a vehicle in a lane, \<^verbatim>\<open>move(timeStep)\<close> computes the candidate position
  \<open>position + (speed * 1000 / 3600) * timeStep\<close> in double arithmetic, each operation
  rounded (second conjunct). If the light of the lane is not GREEN, the position is
  strictly below \<open>length - 10\<close> and the candidate is at least \<open>length - 10\<close>, the speed
  becomes 0 and nothing else changes; in every other case the position becomes the
  candidate and nothing else changes.
\<close>

theorem move_stop_line:
  assumes "currentLane v = Some l"
  shows "move L timeStep v =
     (let nextPos = position v + (speed v * D 1000 / D 3600) * timeStep;
          stopLine = len (L ! l) - D 10
      in if state (light (L ! l)) \<noteq> GREEN \<and> position v < stopLine \<and> nextPos \<ge> stopLine
         then v\<lparr>speed := D 0\<rparr>
         else v\<lparr>position := nextPos\<rparr>) \<and>
     val (position v + (speed v * D 1000 / D 3600) * timeStep) =
       round_double (val (position v) +
         round_double (round_double (round_double (val (speed v) * 1000) / 3600) * val timeStep))"
proof -
  have c: "round_double 1000 = 1000" "round_double 3600 = 3600"
    using round_double_of_int [of 1000] round_double_of_int [of 3600] by simp_all
  show ?thesis
    using assms by (simp add: move_def getState_def Let_def c)
qed

lemma ex_stop:
  "state (light ([lane_ex] ! 0)) \<noteq> GREEN \<and>
   position car_ex < len ([lane_ex] ! 0) - D 10 \<and>
   position car_ex + (speed car_ex * D 1000 / D 3600) * D 1 \<ge> len ([lane_ex] ! 0) - D 10"
  by code_simp

lemma ex_rounded:
  "state (light ([lane_yellow] ! 0)) \<noteq> GREEN \<and>
   position car_rounded < len ([lane_yellow] ! 0) - D 10 \<and>
   position car_rounded + (speed car_rounded * D 1000 / D 3600) * D 1 \<ge>
     len ([lane_yellow] ! 0) - D 10 \<and>
   val (position car_rounded + (speed car_rounded * D 1000 / D 3600) * D 1) = 490 \<and>
   val (position car_rounded) + val (speed car_rounded) * 1000 / 3600 * 1 < 490"
  by code_simp

lemma ex_advance:
  "\<not> position car_100 + (speed car_100 * D 1000 / D 3600) * D 1 \<ge> len ([lane_ex] ! 0) - D 10 \<and>
   val (position car_100 + (speed car_100 * D 1000 / D 3600) * D 1) = 110"
  by code_simp

lemma ex_lanes:
  "currentLane car_ex = Some 0" "currentLane car_rounded = Some 0" "currentLane car_100 = Some 0"
  "currentLane car_469 = Some 0"
  by (simp_all add: car_ex_def car_rounded_def car_100_def car_469_def Vehicle_ctor_def)

theorem move_stop_line_witness:
  "currentLane car_ex = Some 0 \<and>
   move [lane_ex] (D 1) car_ex = car_ex\<lparr>speed := D 0\<rparr> \<and>
   move [lane_yellow] (D 1) car_rounded = car_rounded\<lparr>speed := D 0\<rparr> \<and>
   val (position (move [lane_ex] (D 1) car_100)) = 110 \<and>
   speed (move [lane_ex] (D 1) car_100) = speed car_100"
proof -
  have "move [lane_ex] (D 1) car_ex = car_ex\<lparr>speed := D 0\<rparr>"
    using move_stop_line [OF ex_lanes(1), of "[lane_ex]" "D 1"] ex_stop by (simp add: Let_def)
  moreover have "move [lane_yellow] (D 1) car_rounded = car_rounded\<lparr>speed := D 0\<rparr>"
    using move_stop_line [OF ex_lanes(2), of "[lane_yellow]" "D 1"] ex_rounded
    by (simp add: Let_def)
  moreover have "move [lane_ex] (D 1) car_100 =
      car_100\<lparr>position := position car_100 + (speed car_100 * D 1000 / D 3600) * D 1\<rparr>"
    using move_stop_line [OF ex_lanes(3), of "[lane_ex]" "D 1"] ex_advance by (simp add: Let_def)
  then have "val (position (move [lane_ex] (D 1) car_100)) = 110"
    "speed (move [lane_ex] (D 1) car_100) = speed car_100"
    using ex_advance by simp_all
  ultimately show ?thesis
    using ex_lanes(1) by simp
qed

text \<open>
  Claim C2. Once the stop-line rule has set the speed of a vehicle to 0, every later call of
  \<^verbatim>\<open>move\<close> returns the vehicle as it is, whatever the lights and the lengths of the lanes
  and the time step of that call are: neither the speed nor the position changes again,
  after one more call and after any sequence of calls.
\<close>

theorem stopped_never_resumes:
  assumes "currentLane v = Some l"
    and "state (light (L ! l)) \<noteq> GREEN"
    and "position v < len (L ! l) - D 10"
    and "position v + (speed v * D 1000 / D 3600) * timeStep \<ge> len (L ! l) - D 10"
  shows "speed (move L timeStep v) = D 0 \<and> position (move L timeStep v) = position v \<and>
         (\<forall>L' timeStep'. move L' timeStep' (move L timeStep v) = move L timeStep v) \<and>
         (\<forall>calls. moves calls (move L timeStep v) = move L timeStep v)"
proof -
  have "move L timeStep v = v\<lparr>speed := D 0\<rparr>"
    using assms by (simp add: move_cases stop_line_rule_def candidate_def)
  then show ?thesis
    by (simp add: move_stopped moves_stopped)
qed

theorem stopped_never_resumes_witness:
  "currentLane car_ex = Some 0 \<and> state (light ([lane_ex] ! 0)) \<noteq> GREEN \<and>
   position car_ex < len ([lane_ex] ! 0) - D 10 \<and>
   position car_ex + (speed car_ex * D 1000 / D 3600) * D 1 \<ge> len ([lane_ex] ! 0) - D 10 \<and>
   speed (move [lane_ex] (D 1) car_ex) = D 0 \<and>
   moves [([lane_green], D 1), ([lane_ex], D 5)] (move [lane_ex] (D 1) car_ex) =
     move [lane_ex] (D 1) car_ex"
  using stopped_never_resumes [OF ex_lanes(1), of "[lane_ex]" "D 1"] ex_stop ex_lanes(1)
  by simp

text \<open>
  Claim C9, with the stopped vehicles set apart. Take a vehicle in a lane with a speed that is not negative, and
  time steps that are not negative (the program's is 1). After any sequence of calls of
  \<^verbatim>\<open>move\<close> the position is at least what it was, and so it is after one more call; the
  speed is still not negative. That call leaves the position where it is when the stop-line
  rule applies and sets it to the candidate position otherwise. The position also stays the
  same when the rule does not apply and the speed is 0, as it is for a vehicle that the rule
  has stopped before. For a vehicle with the speed it was generated with (at least 20 km/h)
  and a step of at least 1, the position stays the same exactly when the rule applies.
\<close>

theorem position_non_decreasing:
  assumes "D 0 \<le> speed v"
    and "\<forall>(L', timeStep') \<in> set calls. D 0 \<le> timeStep'"
    and "D 0 \<le> timeStep"
    and "currentLane v = Some l"
    and "w = moves calls v"
  shows "position v \<le> position w \<and>
         position w \<le> position (move L timeStep w) \<and>
         D 0 \<le> speed (move L timeStep w) \<and>
         position (move L timeStep w) =
           (if stop_line_rule L timeStep w then position w
            else position w + (speed w * D 1000 / D 3600) * timeStep) \<and>
         (speed w = D 0 \<longrightarrow>
            position (move L timeStep w) = position w \<and> \<not> stop_line_rule L timeStep w) \<and>
         (20 \<le> val (speed w) \<and> 1 \<le> val timeStep \<and> \<bar>val (position w)\<bar> \<le> 2 ^ 52 \<longrightarrow>
            (position (move L timeStep w) = position w \<longleftrightarrow> stop_line_rule L timeStep w))"
proof -
  have w: "position v \<le> position w" "D 0 \<le> speed w"
    using moves_mono [OF assms(1,2)] assms(5) by simp_all
  have lane: "currentLane w = Some l"
    unfolding assms(5) using assms(4) by (simp add: moves_currentLane)
  have step: "position (move L timeStep w) =
           (if stop_line_rule L timeStep w then position w
            else position w + (speed w * D 1000 / D 3600) * timeStep)"
    by (simp add: move_cases [OF lane] candidate_def)
  have mono: "position w \<le> position (move L timeStep w)" "D 0 \<le> speed (move L timeStep w)"
    using w(2) assms(3) by (simp_all add: move_position_mono move_speed_nonneg)
  have stopped: "position (move L timeStep w) = position w \<and> \<not> stop_line_rule L timeStep w"
    if "speed w = D 0"
    using that
    by (simp add: move_stopped stop_line_rule_def lane candidate_stopped less_double_def
        less_eq_double_def)
  have moving: "position (move L timeStep w) = position w \<longleftrightarrow> stop_line_rule L timeStep w"
    if "20 \<le> val (speed w) \<and> 1 \<le> val timeStep \<and> \<bar>val (position w)\<bar> \<le> 2 ^ 52"
  proof -
    have "18 / 5 \<le> val (speed w)"
      using that by simp
    then have "position w < candidate timeStep w"
      using that by (intro candidate_advances) simp_all
    then have "candidate timeStep w \<noteq> position w"
      by (auto simp: less_double_def)
    then show ?thesis
      by (simp add: step candidate_def)
  qed
  show ?thesis
    using w(1) mono step stopped moving by blast
qed

lemma ex_469:
  "D 0 \<le> speed car_469 \<and> D 0 \<le> D 1 \<and>
   stop_line_rule [lane_ex] (D 1) car_ex \<and>
   \<not> stop_line_rule [lane_ex] (D 1) car_469 \<and>
   \<not> stop_line_rule [lane_yellow] (D 1) (car_469\<lparr>position := D 479\<rparr>) \<and>
   candidate (D 1) car_469 = D 479 \<and>
   candidate (D 1) (car_469\<lparr>position := D 479\<rparr>) = D 489 \<and> 20 \<le> val (speed car_ex) \<and>
   1 \<le> val (D 1) \<and> \<bar>val (position car_ex)\<bar> \<le> 2 ^ 52"
  by (simp add: double_eq_iff) code_simp

lemma ex_479: "val (position car_469) = 469 \<and> val (D 479) = 479"
  by code_simp

theorem position_non_decreasing_witness:
  "D 0 \<le> speed car_469 \<and> D 0 \<le> D 1 \<and> currentLane car_469 = Some 0 \<and>
   moves [([lane_ex], D 1), ([lane_yellow], D 1)] car_469 = car_ex \<and>
   position car_469 \<le> position car_ex \<and>
   20 \<le> val (speed car_ex) \<and> 1 \<le> val (D 1) \<and> \<bar>val (position car_ex)\<bar> \<le> 2 ^ 52 \<and>
   stop_line_rule [lane_ex] (D 1) car_ex \<and>
   position (move [lane_ex] (D 1) car_ex) = position car_ex \<and>
   \<not> stop_line_rule [lane_ex] (D 1) car_469 \<and>
   position (move [lane_ex] (D 1) car_469) = D 479 \<and>
   position car_469 \<noteq> D 479"
proof -
  have m1: "move [lane_ex] (D 1) car_469 = car_469\<lparr>position := D 479\<rparr>"
    using ex_469 by (simp add: move_cases [OF ex_lanes(4)])
  have "currentLane (car_469\<lparr>position := D 479\<rparr>) = Some 0"
    by (simp add: ex_lanes)
  then have m2: "move [lane_yellow] (D 1) (car_469\<lparr>position := D 479\<rparr>) = car_ex"
    using ex_469 by (simp add: move_cases car_469_def) (simp add: car_ex_def)
  have m: "car_ex = moves [([lane_ex], D 1), ([lane_yellow], D 1)] car_469"
    by (simp add: moves_def m1 m2)
  have calls: "\<forall>(L', timeStep') \<in> set [([lane_ex], D 1), ([lane_yellow], D 1)]. D 0 \<le> timeStep'"
    using ex_469 by simp
  note c = position_non_decreasing [of car_469 _ "D 1" 0 car_ex "[lane_ex]", OF _ calls _ ex_lanes(4) m]
  have "position car_469 \<le> position car_ex \<and>
      position (move [lane_ex] (D 1) car_ex) = position car_ex"
    using c ex_469 by simp
  moreover have "position (move [lane_ex] (D 1) car_469) = D 479"
    by (simp add: m1)
  moreover have "position car_469 \<noteq> D 479"
    using ex_479 by (simp add: double_eq_iff)
  ultimately show ?thesis
    using ex_469 ex_lanes(4) m [symmetric] by simp
qed

text \<open>
  Without the condition on the speed the equivalence fails: the car that the rule stopped
  at 489 m has speed 0, which is not negative, and in the next call its position stays
  the same although the stop-line rule does not apply to it (its candidate position is
  489 m, before the line).
\<close>

theorem position_kept_without_rule_counterexample:
  "D 0 \<le> speed (move [lane_ex] (D 1) car_ex) \<and>
   currentLane (move [lane_ex] (D 1) car_ex) = Some 0 \<and>
   position (move [lane_ex] (D 1) (move [lane_ex] (D 1) car_ex)) =
     position (move [lane_ex] (D 1) car_ex) \<and>
   \<not> stop_line_rule [lane_ex] (D 1) (move [lane_ex] (D 1) car_ex)"
proof -
  have m: "move [lane_ex] (D 1) car_ex = car_ex\<lparr>speed := D 0\<rparr>"
    using ex_469 by (simp add: move_cases [OF ex_lanes(1)])
  have s: "speed (car_ex\<lparr>speed := D 0\<rparr>) = D 0"
    by simp
  have "\<not> stop_line_rule [lane_ex] (D 1) (car_ex\<lparr>speed := D 0\<rparr>)"
    by (simp add: stop_line_rule_def ex_lanes candidate_stopped [OF s] less_double_def
        less_eq_double_def)
  then show ?thesis
    by (simp add: m move_stopped [OF s] ex_lanes less_eq_double_def)
qed

section \<open>One lane\<close>

lemma move_each_Nil: "move_each L t [] h = h"
  by (simp add: move_each_def)

lemma move_each_Cons: "move_each L t (p # ps) h = move_each L t ps (h[p := move L t (h ! p)])"
  by (simp add: move_each_def)

lemma length_move_each: "length (move_each L t ps h) = length h"
  by (induction ps arbitrary: h) (simp_all add: move_each_Nil move_each_Cons)

lemma move_each_other: "p \<notin> set ps \<Longrightarrow> move_each L t ps h ! p = h ! p"
  by (induction ps arbitrary: h) (auto simp: move_each_Nil move_each_Cons)

lemma move_each_member:
  "distinct ps \<Longrightarrow> p \<in> set ps \<Longrightarrow> p < length h \<Longrightarrow> move_each L t ps h ! p = move L t (h ! p)"
proof (induction ps arbitrary: h)
  case Nil
  then show ?case by simp
next
  case (Cons q ps)
  show ?case
  proof (cases "p = q")
    case True
    then have "p \<notin> set ps" using Cons.prems(1) by simp
    then show ?thesis
      using True Cons.prems(3) by (simp add: move_each_Cons move_each_other)
  next
    case False
    then have "p \<in> set ps" using Cons.prems(2) by simp
    then show ?thesis
      using False Cons.IH [of "h[q := move L t (h ! q)]"] Cons.prems(1,3)
      by (simp add: move_each_Cons)
  qed
qed

lemma loop_heap:
  "snd (Lane_update_loop L this timeStep ps h) = move_each L (D (of_int timeStep)) ps h"
  by (induction ps arbitrary: h) (simp_all add: move_each_Nil move_each_Cons Let_def case_prod_beta)

lemma loop_kept:
  "distinct ps \<Longrightarrow>
   fst (Lane_update_loop L this timeStep ps h) =
     filter (\<lambda>p. position (move_each L (D (of_int timeStep)) ps h ! p) < len (L ! this)) ps"
proof (induction ps arbitrary: h)
  case Nil
  then show ?case by simp
next
  case (Cons p ps)
  let ?h1 = "h[p := move L (D (of_int timeStep)) (h ! p)]"
  have p: "move_each L (D (of_int timeStep)) ps ?h1 ! p = ?h1 ! p"
    using Cons.prems by (simp add: move_each_other)
  have IH: "fst (Lane_update_loop L this timeStep ps ?h1) =
     filter (\<lambda>q. position (move_each L (D (of_int timeStep)) ps ?h1 ! q) < len (L ! this)) ps"
    using Cons.IH [of ?h1] Cons.prems by simp
  show ?case
    using IH p
    by (simp add: move_each_Cons Let_def not_le case_prod_beta less_double_def less_eq_double_def)
qed


lemma Lane_update_eq:
  "this < length L \<Longrightarrow>
   Lane_update this timeStep (L, h) =
     (let L1 = L[this := (L ! this)\<lparr>light := TrafficLight_update timeStep (light (L ! this))\<rparr>];
          r = Lane_update_loop L1 this timeStep (vehicles (L ! this)) h
      in (L[this := (L ! this)\<lparr>light := TrafficLight_update timeStep (light (L ! this)),
                                vehicles := fst r\<rparr>], snd r))"
  by (simp add: Lane_update_def Let_def case_prod_beta)

text \<open>
  Claim C5. \<^verbatim>\<open>Lane::update(timeStep)\<close> on a lane whose pointers are distinct and address
  allocated vehicles. The light is advanced first: the lane objects \<open>L1\<close> that the vehicles
  read hold the light after its update. Then \<^verbatim>\<open>move\<close> is called through each pointer
  in the order of the vector; a vehicle of the lane is moved once, every other object of
  the heap is left as it is. The vector of the lane afterwards holds exactly the pointers
  whose vehicle has a position below the length of the lane after its move, in their old
  order. Nothing else changes in the lane and the other lanes stay as they are; the
  pointers of the lane are again distinct and allocated. (Both conditions hold in every
  state of the program: each pointer is pushed once, when its vehicle is allocated; see
  the last section.)
\<close>

theorem Lane_update_removes:
  assumes "this < length L"
    and "distinct (vehicles (L ! this))"
    and "\<forall>p \<in> set (vehicles (L ! this)). p < length h"
    and "L1 = L[this := (L ! this)\<lparr>light := TrafficLight_update timeStep (light (L ! this))\<rparr>]"
    and "h' = snd (Lane_update this timeStep (L, h))"
    and "L' = fst (Lane_update this timeStep (L, h))"
  shows "h' = move_each L1 (D (of_int timeStep)) (vehicles (L ! this)) h \<and>
         length h' = length h \<and>
         (\<forall>p \<in> set (vehicles (L ! this)). h' ! p = move L1 (D (of_int timeStep)) (h ! p)) \<and>
         (\<forall>p. p \<notin> set (vehicles (L ! this)) \<longrightarrow> h' ! p = h ! p) \<and>
         vehicles (L' ! this) = filter (\<lambda>p. position (h' ! p) < len (L ! this)) (vehicles (L ! this)) \<and>
         L' = L[this := (L ! this)\<lparr>light := TrafficLight_update timeStep (light (L ! this)),
                                    vehicles := vehicles (L' ! this)\<rparr>] \<and>
         distinct (vehicles (L' ! this)) \<and>
         (\<forall>p \<in> set (vehicles (L' ! this)). p < length h')"
proof -
  let ?t = "D (of_int timeStep)"
  let ?ps = "vehicles (L ! this)"
  have len1: "len (L1 ! this) = len (L ! this)"
    using assms(1,4) by simp
  have h': "h' = move_each L1 ?t ?ps h"
    using assms(1,4,5) by (simp add: Lane_update_eq Let_def loop_heap)
  have L': "L' = L[this := (L ! this)\<lparr>light := TrafficLight_update timeStep (light (L ! this)),
      vehicles := fst (Lane_update_loop L1 this timeStep ?ps h)\<rparr>]"
    using assms(1,4,6) by (simp add: Lane_update_eq Let_def)
  have kept: "vehicles (L' ! this) = filter (\<lambda>p. position (h' ! p) < len (L ! this)) ?ps"
    using assms(1,2) by (simp add: L' h' loop_kept len1)
  have mem: "\<forall>p \<in> set ?ps. h' ! p = move L1 ?t (h ! p)"
    using assms(2,3) by (simp add: h' move_each_member)
  have other: "\<forall>p. p \<notin> set ?ps \<longrightarrow> h' ! p = h ! p"
    by (simp add: h' move_each_other)
  have "L' = L[this := (L ! this)\<lparr>light := TrafficLight_update timeStep (light (L ! this)),
                                    vehicles := vehicles (L' ! this)\<rparr>]"
    using assms(1) by (simp add: L')
  moreover have "distinct (vehicles (L' ! this))" "\<forall>p \<in> set (vehicles (L' ! this)). p < length h'"
    using assms(2,3) by (simp_all add: kept) (simp add: h' length_move_each)
  ultimately show ?thesis
    using h' kept mem other by (simp add: length_move_each)
qed

lemma ex_update:
  "vehicles ([lane_two] ! 0) = [0, 1] \<and> val (len ([lane_two] ! 0)) = 500 \<and>
   val (position (snd (Lane_update 0 1 ([lane_two], heap_two)) ! 0)) = 505 \<and>
   val (position (snd (Lane_update 0 1 ([lane_two], heap_two)) ! 1)) = 110"
  by code_simp

theorem Lane_update_removes_witness:
  "(0::nat) < length [lane_two] \<and> distinct (vehicles ([lane_two] ! 0)) \<and>
   vehicles (fst (Lane_update 0 1 ([lane_two], heap_two)) ! 0) = [1] \<and>
   val (position (snd (Lane_update 0 1 ([lane_two], heap_two)) ! 0)) = 505 \<and>
   val (position (snd (Lane_update 0 1 ([lane_two], heap_two)) ! 1)) = 110 \<and>
   val (len lane_two) = 500"
proof -
  have a: "(0::nat) < length [lane_two]" "distinct (vehicles ([lane_two] ! 0))"
    "\<forall>p \<in> set (vehicles ([lane_two] ! 0)). p < length heap_two"
    by (simp_all add: lane_two_def heap_two_def)
  note c = Lane_update_removes [OF a refl refl refl, of 1]
  have "vehicles (fst (Lane_update 0 1 ([lane_two], heap_two)) ! 0) =
      filter (\<lambda>p. position (snd (Lane_update 0 1 ([lane_two], heap_two)) ! p) < len ([lane_two] ! 0))
        (vehicles ([lane_two] ! 0))"
    using c by blast
  then have "vehicles (fst (Lane_update 0 1 ([lane_two], heap_two)) ! 0) = [1]"
    using ex_update by (simp add: less_double_def)
  then show ?thesis
    using a(1,2) ex_update by simp
qed

section \<open>Rendering of a lane\<close>

lemma static_cast_int_truncates:
  "\<bar>real_of_int (static_cast_int x)\<bar> \<le> \<bar>val x\<bar> \<and> \<bar>val x\<bar> < \<bar>real_of_int (static_cast_int x)\<bar> + 1 \<and>
   (0 \<le> val x \<longrightarrow> 0 \<le> static_cast_int x) \<and> (val x \<le> 0 \<longrightarrow> static_cast_int x \<le> 0)"
proof (cases "0 \<le> val x")
  case True
  then have "0 \<le> \<lfloor>val x\<rfloor>" by simp
  then show ?thesis
    using True unfolding static_cast_int_def by simp
next
  case False
  then have "\<lceil>val x\<rceil> \<le> 0" by (simp add: ceiling_le_iff)
  then show ?thesis
    using False unfolding static_cast_int_def by simp linarith
qed

lemma draw_vehicles_no_length:
  "val (len lane) = 0 \<Longrightarrow> draw_vehicles lane h ps road = Some road"
  by (induction ps) simp_all

lemma draw_vehicles_in_track:
  "length road = 50 \<Longrightarrow> val (len lane) \<noteq> 0 \<Longrightarrow>
   \<exists>road'. draw_vehicles lane h ps road = Some road' \<and> length road' = 50 \<and>
     (\<forall>i < 50. road' ! i = road ! i \<or>
        (\<exists>p \<in> set ps. track_index lane (h ! p) = int i \<and> road' ! i = getSymbol (h ! p) ! 0))"
proof (induction ps arbitrary: road)
  case Nil
  then show ?case by simp
next
  case (Cons v ps)
  let ?pos = "track_index lane (h ! v)"
  show ?case
  proof (cases "0 \<le> ?pos \<and> ?pos < 50")
    case True
    let ?road1 = "road[nat ?pos := getSymbol (h ! v) ! 0]"
    have step: "draw_vehicles lane h (v # ps) road = draw_vehicles lane h ps ?road1"
      using True Cons.prems by (simp add: track_index_def string_assign_def Let_def)
    obtain road' where r: "draw_vehicles lane h ps ?road1 = Some road'" "length road' = 50"
      "\<forall>i < 50. road' ! i = ?road1 ! i \<or>
        (\<exists>p \<in> set ps. track_index lane (h ! p) = int i \<and> road' ! i = getSymbol (h ! p) ! 0)"
      using Cons.IH [of ?road1] Cons.prems by auto
    have "road' ! i = road ! i \<or>
        (\<exists>p \<in> set (v # ps). track_index lane (h ! p) = int i \<and> road' ! i = getSymbol (h ! p) ! 0)"
      if i: "i < 50" for i
    proof (cases "i = nat ?pos")
      case True
      then have "?road1 ! i = getSymbol (h ! v) ! 0" "track_index lane (h ! v) = int i"
        using i Cons.prems \<open>0 \<le> ?pos \<and> ?pos < 50\<close> by simp_all
      then show ?thesis using r(3) i by auto
    next
      case False
      then have "?road1 ! i = road ! i" by simp
      then show ?thesis using r(3) i by auto
    qed
    then show ?thesis unfolding step using r(1,2) by simp
  next
    case False
    then have step: "draw_vehicles lane h (v # ps) road = draw_vehicles lane h ps road"
      using Cons.prems by (auto simp add: track_index_def Let_def)
    show ?thesis
      unfolding step using Cons.IH [OF Cons.prems] by auto
  qed
qed

lemma draw_vehicles_marks:
  "length road = 50 \<Longrightarrow> val (len lane) \<noteq> 0 \<Longrightarrow>
   draw_vehicles lane h ps road = Some road' \<Longrightarrow> p \<in> set ps \<Longrightarrow>
   0 \<le> track_index lane (h ! p) \<Longrightarrow> track_index lane (h ! p) < 50 \<Longrightarrow>
   \<exists>q \<in> set ps. track_index lane (h ! q) = track_index lane (h ! p) \<and>
      road' ! nat (track_index lane (h ! p)) = getSymbol (h ! q) ! 0"
proof (induction ps arbitrary: road)
  case Nil
  then show ?case by simp
next
  case (Cons v ps)
  define i where "i = nat (track_index lane (h ! p))"
  have i: "i < 50" "int i = track_index lane (h ! p)"
    using Cons.prems(5,6) by (simp_all add: i_def)
  define road1 where "road1 =
    (if 0 \<le> track_index lane (h ! v) \<and> track_index lane (h ! v) < 50
     then road[nat (track_index lane (h ! v)) := getSymbol (h ! v) ! 0] else road)"
  have len1: "length road1 = 50"
    using Cons.prems(1) by (simp add: road1_def)
  have step: "draw_vehicles lane h (v # ps) road = draw_vehicles lane h ps road1"
    using Cons.prems(1,2) by (simp add: road1_def track_index_def string_assign_def Let_def)
  then have rest: "draw_vehicles lane h ps road1 = Some road'"
    using Cons.prems(3) by simp
  show ?case
  proof (cases "p \<in> set ps")
    case True
    then show ?thesis
      using Cons.IH [OF len1 Cons.prems(2) rest True Cons.prems(5,6)] by auto
  next
    case False
    then have pv: "p = v" using Cons.prems(4) by simp
    have r1: "road1 ! i = getSymbol (h ! v) ! 0"
      using Cons.prems(1,5,6) by (simp add: road1_def pv i_def)
    obtain r where r: "draw_vehicles lane h ps road1 = Some r"
      "\<forall>k < 50. r ! k = road1 ! k \<or>
        (\<exists>q \<in> set ps. track_index lane (h ! q) = int k \<and> r ! k = getSymbol (h ! q) ! 0)"
      using draw_vehicles_in_track [OF len1 Cons.prems(2), of h ps] by blast
    have "r = road'" using r(1) rest by simp
    then have "road' ! i = road1 ! i \<or>
        (\<exists>q \<in> set ps. track_index lane (h ! q) = int i \<and> road' ! i = getSymbol (h ! q) ! 0)"
      using r(2) i(1) by blast
    then have "\<exists>q \<in> set (v # ps). track_index lane (h ! q) = track_index lane (h ! p) \<and>
      road' ! i = getSymbol (h ! q) ! 0"
      using r1 pv i(2) by auto
    then show ?thesis by (simp only: i_def)
  qed
qed

lemma draw_vehicles_total:
  "length road = 50 \<Longrightarrow>
   \<exists>road'. draw_vehicles lane h ps road = Some road' \<and> length road' = 50"
  using draw_vehicles_in_track [of road lane h ps] draw_vehicles_no_length [of lane h ps road]
  by (cases "val (len lane) = 0") auto

lemma display_lanes_total:
  "\<exists>rows. display_lanes h ls = Some rows \<and> length rows = length ls"
proof (induction ls)
  case Nil
  then show ?case by simp
next
  case (Cons lane ls)
  obtain road where "draw_vehicles lane h (vehicles lane) (replicate 50 (CHR ''-'')) = Some road"
    using draw_vehicles_total [of "replicate 50 (CHR ''-'')" lane h "vehicles lane"] by auto
  then show ?case
    using Cons.IH by (auto simp: display_lane_def)
qed

lemma display_total: "\<exists>rows. display s = Some (simTime s, rows) \<and> length rows = length (lanes s)"
  using display_lanes_total [of "heap s" "lanes s"] by (auto simp: display_def)

text \<open>
  Claim C8. For every lane and every heap, so for every position of every vehicle,
  \<^verbatim>\<open>display\<close> finishes the track of the lane without a write outside the buffer
  (\<^const>\<open>display_lane\<close> is not \<^term>\<open>None\<close>) and the track has 50 characters. The index of
  a vehicle is computed in doubles: the position divided by the length of the lane, rounded,
  times 50, rounded, and cut to an integer towards zero. An index of the track holds a dash
  or the symbol of a vehicle of the lane with that index, and on a lane whose length is not
  0 every vehicle whose index lies in 0..49 has its index marked by a vehicle with that
  index. (For a lane of length 0 the conversion of the source is undefined; the model
  draws no vehicle there.)
\<close>

theorem display_within_track:
  "\<exists>road. display_lane h lane = Some (lid lane, state (light lane), road) \<and>
     length road = 50 \<and>
     (\<forall>i < 50. road ! i = CHR ''-'' \<or>
        (\<exists>p \<in> set (vehicles lane). val (len lane) \<noteq> 0 \<and> track_index lane (h ! p) = int i \<and>
           road ! i = getSymbol (h ! p) ! 0)) \<and>
     (val (len lane) \<noteq> 0 \<longrightarrow>
       (\<forall>p \<in> set (vehicles lane).
          0 \<le> track_index lane (h ! p) \<and> track_index lane (h ! p) < 50 \<longrightarrow>
          (\<exists>q \<in> set (vehicles lane). track_index lane (h ! q) = track_index lane (h ! p) \<and>
             road ! nat (track_index lane (h ! p)) = getSymbol (h ! q) ! 0))) \<and>
     (\<forall>v. track_index lane v = static_cast_int ((position v / len lane) * D 50) \<and>
          val ((position v / len lane) * D 50) =
            round_double (round_double (val (position v) / val (len lane)) * 50)) \<and>
     (\<forall>x. \<bar>real_of_int (static_cast_int x)\<bar> \<le> \<bar>val x\<bar> \<and>
          \<bar>val x\<bar> < \<bar>real_of_int (static_cast_int x)\<bar> + 1 \<and>
          (0 \<le> val x \<longrightarrow> 0 \<le> static_cast_int x) \<and> (val x \<le> 0 \<longrightarrow> static_cast_int x \<le> 0))"
proof -
  let ?start = "replicate 50 (CHR ''-'')"
  have len: "length ?start = 50" by simp
  have c50: "round_double 50 = 50"
    using round_double_of_int [of 50] by simp
  have idx: "\<forall>v. track_index lane v = static_cast_int ((position v / len lane) * D 50) \<and>
          val ((position v / len lane) * D 50) =
            round_double (round_double (val (position v) / val (len lane)) * 50)"
    by (simp add: track_index_def c50)
  show ?thesis
  proof (cases "val (len lane) = 0")
    case True
    have "display_lane h lane = Some (lid lane, state (light lane), ?start)"
      by (simp add: display_lane_def getState_def draw_vehicles_no_length [OF True])
    moreover have "\<forall>i < 50. ?start ! i = CHR ''-''"
      by simp
    ultimately show ?thesis
      using True idx static_cast_int_truncates len by blast
  next
    case False
    obtain road where r: "draw_vehicles lane h (vehicles lane) ?start = Some road" "length road = 50"
      "\<forall>i < 50. road ! i = ?start ! i \<or>
          (\<exists>p \<in> set (vehicles lane). track_index lane (h ! p) = int i \<and>
             road ! i = getSymbol (h ! p) ! 0)"
      using draw_vehicles_in_track [OF len False, of h "vehicles lane"] by blast
    have "display_lane h lane = Some (lid lane, state (light lane), road)"
      using r(1) by (simp add: display_lane_def getState_def)
    moreover have "\<forall>i < 50. road ! i = CHR ''-'' \<or>
          (\<exists>p \<in> set (vehicles lane). val (len lane) \<noteq> 0 \<and> track_index lane (h ! p) = int i \<and>
             road ! i = getSymbol (h ! p) ! 0)"
      using r(3) False by simp
    moreover have "\<forall>p \<in> set (vehicles lane).
          0 \<le> track_index lane (h ! p) \<and> track_index lane (h ! p) < 50 \<longrightarrow>
          (\<exists>q \<in> set (vehicles lane). track_index lane (h ! q) = track_index lane (h ! p) \<and>
             road ! nat (track_index lane (h ! p)) = getSymbol (h ! q) ! 0)"
      using draw_vehicles_marks [OF len False r(1)] by blast
    ultimately show ?thesis
      using r(2) idx static_cast_int_truncates by blast
  qed
qed

lemma ex_display:
  "display_lane heap_three lane_three =
     Some (1, RED, ''C---------------------------B---------------------'')"
  by code_simp

lemma ex_indices:
  "track_index lane_three (heap_three ! 0) = 0 \<and>
   val (position (heap_three ! 0)) / val (len lane_three) * 50 = - 1 / 2 \<and>
   track_index lane_three (heap_three ! 1) = 28 \<and>
   val (position (heap_three ! 1)) / val (len lane_three) * 50 = 29 \<and>
   track_index lane_three (heap_three ! 2) = 50"
  by code_simp

theorem display_within_track_witness:
  "display_lane heap_three lane_three =
     Some (1, RED, ''C---------------------------B---------------------'') \<and>
   length ''C---------------------------B---------------------'' = 50 \<and>
   track_index lane_three (heap_three ! 0) = 0 \<and>
   val (position (heap_three ! 0)) / val (len lane_three) * 50 = - 1 / 2 \<and>
   track_index lane_three (heap_three ! 1) = 28 \<and>
   val (position (heap_three ! 1)) / val (len lane_three) * 50 = 29 \<and>
   track_index lane_three (heap_three ! 2) = 50"
proof -
  obtain road where road:
    "display_lane heap_three lane_three = Some (lid lane_three, state (light lane_three), road)"
    "length road = 50"
    using display_within_track [of heap_three lane_three] by blast
  have "road = ''C---------------------------B---------------------''"
    using road(1) by (simp add: ex_display)
  then have "length ''C---------------------------B---------------------'' = 50"
    using road(2) by (simp only:)
  then show ?thesis
    using ex_display ex_indices by (simp only:)
qed
section \<open>The distributions\<close>

lemma round_double_numeral [simp]:
  "numeral w \<le> (9007199254740992::int) \<Longrightarrow> round_double (numeral w) = numeral w"
  using round_double_of_int [of "numeral w"] by simp

lemma round_double_1 [simp]: "round_double 1 = 1"
  using round_double_of_int [of 1] by simp

lemma val_D_nat: "n \<le> 2 ^ 53 \<Longrightarrow> val (D (real n)) = real n"
  using round_double_of_int [of "int n"] by simp

lemma uniform_real_distribution_0_1: "uniform_real_distribution (D 0) (D 1) u = u"
  by (simp add: uniform_real_distribution_def double_eq_iff)

lemma spawns_iff: "spawns d \<longleftrightarrow> coin d < D (3 / 10)"
  by (simp add: spawns_def uniform_real_distribution_0_1)

lemma val_D_three_tenths: "val (D (3 / 10)) = 5404319552844595 / 18014398509481984"
  by code_simp

lemma below_three_tenths:
  "u < D (3 / 10) \<longleftrightarrow> val u < 3 / 10 \<and> u \<noteq> D (3 / 10)"
proof -
  have "val u \<le> val (D (3 / 10))" if "val u < 3 / 10"
    using round_double_mono [of "val u" "3 / 10"] that by simp
  moreover have "val (D (3 / 10)) < 3 / 10"
    unfolding val_D_three_tenths by simp
  ultimately show ?thesis
    by (auto simp: less_double_def double_eq_iff)
qed

lemma uniform_int_distribution_interval:
  assumes "a \<le> b"
  shows "uniform_int_distribution a b u = a + k \<longleftrightarrow>
     real_of_int k / real_of_int (b - a + 1) \<le> val u \<and>
     val u < (real_of_int k + 1) / real_of_int (b - a + 1)"
proof -
  have pos: "0 < real_of_int (b - a + 1)"
    using assms by simp
  have "uniform_int_distribution a b u = a + k \<longleftrightarrow> \<lfloor>val u * real_of_int (b - a + 1)\<rfloor> = k"
    by (simp add: uniform_int_distribution_def)
  also have "\<dots> \<longleftrightarrow> real_of_int k \<le> val u * real_of_int (b - a + 1) \<and>
      val u * real_of_int (b - a + 1) < real_of_int k + 1"
    by (simp add: floor_eq_iff)
  also have "\<dots> \<longleftrightarrow> real_of_int k / real_of_int (b - a + 1) \<le> val u \<and>
     val u < (real_of_int k + 1) / real_of_int (b - a + 1)"
    using pos by (simp add: pos_divide_le_eq pos_less_divide_eq)
  finally show ?thesis .
qed

lemma uniform_int_distribution_range:
  assumes "a \<le> b" "0 \<le> val u" "val u < 1"
  shows "a \<le> uniform_int_distribution a b u \<and> uniform_int_distribution a b u \<le> b"
proof -
  have pos: "0 < real_of_int (b - a + 1)"
    using assms by simp
  have "0 \<le> val u * real_of_int (b - a + 1)"
    using assms(2) pos by simp
  then have lo: "0 \<le> \<lfloor>val u * real_of_int (b - a + 1)\<rfloor>"
    by simp
  have "val u * real_of_int (b - a + 1) < 1 * real_of_int (b - a + 1)"
    using assms(3) pos by (rule mult_strict_right_mono)
  then have "val u * real_of_int (b - a + 1) < real_of_int (b - a + 1)"
    by simp
  then have "\<lfloor>val u * real_of_int (b - a + 1)\<rfloor> < b - a + 1"
    by (simp only: floor_less_iff)
  then show ?thesis
    using lo by (simp add: uniform_int_distribution_def)
qed

lemma round_double_error:
  assumes "\<bar>x\<bar> < 2 powi k"
  shows "\<bar>round_double x - x\<bar> \<le> 2 powi (k - 54)"
proof (cases "x = 0")
  case True
  then show ?thesis by simp
next
  case False
  define e where "e = ilog2 x"
  define q :: real where "q = 2 powi (e - 52)"
  have "2 powi e \<le> \<bar>x\<bar>"
    using ilog2_bounds [of x] False by (simp add: e_def)
  then have "(2::real) powi e < 2 powi k"
    using assms by linarith
  then have ek: "e \<le> k - 1"
    by (simp add: powi_less_iff)
  have q: "0 < q" "q \<le> 2 powi (k - 53)"
    using ek by (simp_all add: q_def powi_le_iff)
  have r: "round_double x = of_int (round_half_even (x / q)) * q"
    using False by (simp add: round_double_def e_def q_def Let_def)
  have "\<bar>of_int (round_half_even (x / q)) - x / q\<bar> \<le> 1 / 2"
    by (rule rhe_close)
  then have "\<bar>of_int (round_half_even (x / q)) - x / q\<bar> * q \<le> 1 / 2 * q"
    using q(1) by (intro mult_right_mono) simp_all
  moreover have "\<bar>of_int (round_half_even (x / q)) - x / q\<bar> * q = \<bar>round_double x - x\<bar>"
  proof -
    have "\<bar>of_int (round_half_even (x / q)) - x / q\<bar> * q = \<bar>(of_int (round_half_even (x / q)) - x / q) * q\<bar>"
      using q(1) by (simp add: abs_mult)
    also have "(of_int (round_half_even (x / q)) - x / q) * q = round_double x - x"
      using q(1) by (simp add: r left_diff_distrib)
    finally show ?thesis .
  qed
  ultimately have "\<bar>round_double x - x\<bar> \<le> q / 2"
    by simp
  also have "\<dots> \<le> 2 powi (k - 53) / 2"
    using q(2) by simp
  also have "\<dots> = 2 powi (k - 54)"
    using powi_Suc [of "k - 54"] by simp
  finally show ?thesis .
qed

lemma drawn_speed_range:
  assumes "0 \<le> val (speedDraw d)" "val (speedDraw d) < 1"
  shows "D 20 \<le> drawn_speed d \<and> drawn_speed d \<le> D 50 \<and>
         \<bar>val (drawn_speed d) - (20 + 30 * val (speedDraw d))\<bar> \<le> 1 / 2 ^ 47"
proof -
  define u where "u = val (speedDraw d)"
  define y where "y = round_double (u * 30)"
  have v: "val (drawn_speed d) = round_double (y + 20)"
    by (simp add: drawn_speed_def uniform_real_distribution_def u_def y_def)
  have y0: "0 \<le> y"
    unfolding y_def using assms(1) by (intro round_double_nonneg) (simp add: u_def)
  have "round_double (u * 30) \<le> round_double 30"
    using assms(2) by (intro round_double_mono) (simp add: u_def)
  then have y30: "y \<le> 30"
    by (simp add: y_def)
  have "round_double 20 \<le> round_double (y + 20)" "round_double (y + 20) \<le> round_double 50"
    using y0 y30 by (intro round_double_mono; simp)+
  then have range: "20 \<le> val (drawn_speed d)" "val (drawn_speed d) \<le> 50"
    by (simp_all add: v)
  have "\<bar>u * 30\<bar> < 2 powi 5"
    using assms by (simp add: u_def)
  then have e1: "\<bar>y - u * 30\<bar> \<le> 2 powi (5 - 54)"
    unfolding y_def by (rule round_double_error)
  have "\<bar>y + 20\<bar> < 2 powi 6"
    using y0 y30 by simp
  then have e2: "\<bar>round_double (y + 20) - (y + 20)\<bar> \<le> 2 powi (6 - 54)"
    by (rule round_double_error)
  have "(2::real) powi (5 - 54) = 1 / 2 ^ 49" "(2::real) powi (6 - 54) = 1 / 2 ^ 48"
    using powi_neg [of 49] powi_neg [of 48] by simp_all
  then have "\<bar>round_double (y + 20) - (20 + 30 * u)\<bar> \<le> 1 / 2 ^ 49 + 1 / 2 ^ 48"
    using e1 e2 by linarith
  also have "\<dots> \<le> 1 / 2 ^ 47"
    by simp
  finally show ?thesis
    using range by (simp add: v u_def less_eq_double_def)
qed

section \<open>The simulation\<close>

lemma loop_kept_subset: "set (fst (Lane_update_loop L this timeStep ps h)) \<subseteq> set ps"
  by (induction ps arbitrary: h) (auto simp: Let_def case_prod_beta)

lemma length_Lane_update:
  "length (fst (Lane_update this timeStep x)) = length (fst x)"
  "length (snd (Lane_update this timeStep x)) = length (snd x)"
  by (simp_all add: Lane_update_def Let_def case_prod_beta loop_heap length_move_each)

lemma Lane_update_vehicles_subset:
  "j < length (fst x) \<Longrightarrow>
   set (vehicles (fst (Lane_update this timeStep x) ! j)) \<subseteq> set (vehicles (fst x ! j))"
  using loop_kept_subset
  by (cases "j = this") (auto simp add: Lane_update_def Let_def case_prod_beta)

lemma Lane_update_light:
  "j < length (fst x) \<Longrightarrow>
   light (fst (Lane_update this timeStep x) ! j) =
     (if j = this then TrafficLight_update timeStep (light (fst x ! j)) else light (fst x ! j))"
  by (simp add: Lane_update_def Let_def case_prod_beta)

lemma Lane_update_len:
  "j < length (fst x) \<Longrightarrow> len (fst (Lane_update this timeStep x) ! j) = len (fst x ! j)"
  by (cases "j = this") (simp_all add: Lane_update_def Let_def case_prod_beta)

lemma move_vid: "vid (move L t v) = vid v"
  by (cases "currentLane v") (simp_all add: move_def Let_def)

lemma map_update_same: "(map f h)[a := f (h ! a)] = map f h"
  by (simp only: map_update [symmetric] list_update_id)

lemma move_each_vid: "map vid (move_each L t ps h) = map vid h"
  by (induction ps arbitrary: h)
    (simp_all add: move_each_Nil move_each_Cons map_update move_vid map_update_same)

lemma Lane_update_vid: "map vid (snd (Lane_update this timeStep x)) = map vid (snd x)"
  by (simp add: Lane_update_def Let_def case_prod_beta loop_heap move_each_vid)

lemma update_each_lane_Nil: "update_each_lane step [] x = x"
  by (simp add: update_each_lane_def)

lemma update_each_lane_Cons:
  "update_each_lane step (i # is) x = update_each_lane step is (Lane_update i step x)"
  by (simp add: update_each_lane_def)

lemma length_update_each_lane:
  "length (fst (update_each_lane step is x)) = length (fst x)"
  "length (snd (update_each_lane step is x)) = length (snd x)"
  by (induction "is" arbitrary: x)
    (simp_all add: update_each_lane_Nil update_each_lane_Cons length_Lane_update)

lemma update_each_lane_subset:
  "j < length (fst x) \<Longrightarrow>
   set (vehicles (fst (update_each_lane step is x) ! j)) \<subseteq> set (vehicles (fst x ! j))"
proof (induction "is" arbitrary: x)
  case Nil
  then show ?case by (simp add: update_each_lane_Nil)
next
  case (Cons i "is")
  have "set (vehicles (fst (update_each_lane step (i # is) x) ! j)) \<subseteq>
      set (vehicles (fst (Lane_update i step x) ! j))"
    using Cons.IH [of "Lane_update i step x"] Cons.prems
    by (simp add: update_each_lane_Cons length_Lane_update)
  then show ?case
    using Lane_update_vehicles_subset [OF Cons.prems, of i step] by blast
qed

lemma update_each_lane_light:
  "j < length (fst x) \<Longrightarrow> distinct is \<Longrightarrow>
   light (fst (update_each_lane step is x) ! j) =
     (if j \<in> set is then TrafficLight_update step (light (fst x ! j)) else light (fst x ! j))"
proof (induction "is" arbitrary: x)
  case Nil
  then show ?case by (simp add: update_each_lane_Nil)
next
  case (Cons i "is")
  have "light (fst (update_each_lane step (i # is) x) ! j) =
     (if j \<in> set is then TrafficLight_update step (light (fst (Lane_update i step x) ! j))
      else light (fst (Lane_update i step x) ! j))"
    using Cons.IH [of "Lane_update i step x"] Cons.prems
    by (simp add: update_each_lane_Cons length_Lane_update)
  then show ?case
    using Cons.prems by (auto simp: Lane_update_light)
qed

lemma update_each_lane_len:
  "j < length (fst x) \<Longrightarrow> len (fst (update_each_lane step is x) ! j) = len (fst x ! j)"
  by (induction "is" arbitrary: x)
    (simp_all add: update_each_lane_Nil update_each_lane_Cons length_Lane_update Lane_update_len)

lemma update_each_lane_vid: "map vid (snd (update_each_lane step is x)) = map vid (snd x)"
  by (induction "is" arbitrary: x)
    (simp_all add: update_each_lane_Nil update_each_lane_Cons Lane_update_vid)

lemma update_lanes_eq:
  "update_lanes step s =
     s\<lparr>lanes := fst (update_each_lane step [0..<length (lanes s)] (lanes s, heap s)),
       heap := snd (update_each_lane step [0..<length (lanes s)] (lanes s, heap s))\<rparr>"
  by (simp add: update_lanes_def update_each_lane_def case_prod_beta)


lemma drawn_lane_simTime [simp]: "drawn_lane (s\<lparr>simTime := t\<rparr>) d = drawn_lane s d"
  by (simp add: drawn_lane_def)

lemma generateVehicle_eq:
  "generateVehicle d s =
     s\<lparr>lanes := (lanes s)[drawn_lane s d := (lanes s ! drawn_lane s d)
                    \<lparr>vehicles := vehicles (lanes s ! drawn_lane s d) @ [length (heap s)]\<rparr>],
       heap := heap s @ [\<lparr>vid = nextId s, vtype = drawn_type d, speed = drawn_speed d,
                          position = D 0, currentLane = Some (drawn_lane s d)\<rparr>],
       all_vehicles := all_vehicles s @ [length (heap s)],
       nextId := nextId s + 1\<rparr>"
  by (simp add: generateVehicle_def addVehicle_def Vehicle_ctor_def Let_def drawn_lane_def
      drawn_type_def drawn_speed_def)

lemma Simulation_update_eq:
  "Simulation_update d step s =
     update_lanes step
       (if spawns d then generateVehicle d (s\<lparr>simTime := simTime s + step\<rparr>)
        else s\<lparr>simTime := simTime s + step\<rparr>)"
  by (simp add: Simulation_update_def spawns_def Let_def)

lemma update_lanes_fields:
  "simTime (update_lanes step s) = simTime s"
  "nextId (update_lanes step s) = nextId s"
  "all_vehicles (update_lanes step s) = all_vehicles s"
  "length (lanes (update_lanes step s)) = length (lanes s)"
  "length (heap (update_lanes step s)) = length (heap s)"
  "map vid (heap (update_lanes step s)) = map vid (heap s)"
  by (simp_all add: update_lanes_eq length_update_each_lane update_each_lane_vid)

lemma update_lanes_light:
  "j < length (lanes s) \<Longrightarrow>
   light (lanes (update_lanes step s) ! j) = TrafficLight_update step (light (lanes s ! j))"
  by (simp add: update_lanes_eq update_each_lane_light)

lemma update_lanes_subset:
  "j < length (lanes s) \<Longrightarrow>
   set (vehicles (lanes (update_lanes step s) ! j)) \<subseteq> set (vehicles (lanes s ! j))"
  using update_each_lane_subset [of j "(lanes s, heap s)" step "[0..<length (lanes s)]"]
  by (simp add: update_lanes_eq)

lemma in_some_lane_nth:
  "in_some_lane L p \<longleftrightarrow> (\<exists>j < length L. p \<in> set (vehicles (L ! j)))"
  unfolding in_some_lane_def by (metis in_set_conv_nth)

lemma update_lanes_in_some_lane:
  "in_some_lane (lanes (update_lanes step s)) p \<Longrightarrow> in_some_lane (lanes s) p"
  unfolding in_some_lane_nth
  using update_lanes_subset by (fastforce simp: update_lanes_fields)

lemma generateVehicle_vehicles:
  "j < length (lanes s) \<Longrightarrow>
   vehicles (lanes (generateVehicle d s) ! j) =
     (if j = drawn_lane s d then vehicles (lanes s ! j) @ [length (heap s)] else vehicles (lanes s ! j))"
  by (simp add: generateVehicle_eq)

lemma generateVehicle_in_some_lane:
  "in_some_lane (lanes (generateVehicle d s)) p \<Longrightarrow> in_some_lane (lanes s) p \<or> p = length (heap s)"
proof -
  assume "in_some_lane (lanes (generateVehicle d s)) p"
  then obtain j where j: "j < length (lanes s)" "p \<in> set (vehicles (lanes (generateVehicle d s) ! j))"
    by (auto simp: in_some_lane_nth generateVehicle_eq)
  then have "p \<in> set (vehicles (lanes s ! j)) \<or> p = length (heap s)"
    by (auto simp: generateVehicle_vehicles split: if_splits)
  then show ?thesis
    using j(1) by (auto simp: in_some_lane_nth)
qed

lemma Simulation_update_in_some_lane:
  "in_some_lane (lanes (Simulation_update d step s)) p \<Longrightarrow>
   in_some_lane (lanes s) p \<or> (spawns d \<and> p = length (heap s))"
  unfolding Simulation_update_eq
  by (auto dest!: update_lanes_in_some_lane generateVehicle_in_some_lane split: if_splits)

lemma Simulation_update_length_heap:
  "length (heap (Simulation_update d step s)) =
     (if spawns d then Suc (length (heap s)) else length (heap s))"
  by (simp add: Simulation_update_eq update_lanes_fields generateVehicle_eq)

lemma ptrs_valid_alt:
  "ptrs_valid s \<longleftrightarrow> (\<forall>p. in_some_lane (lanes s) p \<longrightarrow> p < length (heap s))"
  by (auto simp: ptrs_valid_def in_some_lane_def)

lemma Simulation_update_ptrs_valid:
  "ptrs_valid s \<Longrightarrow> ptrs_valid (Simulation_update d step s)"
  unfolding ptrs_valid_alt
  by (auto dest!: Simulation_update_in_some_lane simp: Simulation_update_length_heap less_Suc_eq)

lemma run_Nil: "run [] s = s"
  by (simp add: run_def)

lemma run_Cons: "run (d # ds) s = run ds (Simulation_update d 1 s)"
  by (simp add: run_def)

lemma run_snoc: "run (ds @ [d]) s = Simulation_update d 1 (run ds s)"
  by (simp add: run_def)

lemma run_ptrs_valid: "ptrs_valid s \<Longrightarrow> ptrs_valid (run ds s)"
  by (induction ds arbitrary: s) (simp_all add: run_Nil run_Cons Simulation_update_ptrs_valid)

lemma run_length_heap: "length (heap s) \<le> length (heap (run ds s))"
proof (induction ds arbitrary: s)
  case Nil
  then show ?case by (simp add: run_Nil)
next
  case (Cons d ds)
  have "length (heap s) \<le> length (heap (Simulation_update d 1 s))"
    by (simp add: Simulation_update_length_heap)
  then show ?case
    using Cons [of "Simulation_update d 1 s"] by (simp add: run_Cons)
qed

lemma run_removed:
  "ptrs_valid s \<Longrightarrow> p < length (heap s) \<Longrightarrow> \<not> in_some_lane (lanes s) p \<Longrightarrow>
   \<not> in_some_lane (lanes (run ds s)) p"
proof (induction ds arbitrary: s)
  case Nil
  then show ?case by (simp add: run_Nil)
next
  case (Cons d ds)
  let ?s = "Simulation_update d 1 s"
  have "ptrs_valid ?s"
    using Cons.prems(1) by (rule Simulation_update_ptrs_valid)
  moreover have "p < length (heap ?s)"
    using Cons.prems(2) by (simp add: Simulation_update_length_heap)
  moreover have "\<not> in_some_lane (lanes ?s) p"
    using Cons.prems(2,3) Simulation_update_in_some_lane [of d 1 s p] by auto
  ultimately show ?case
    using Cons.IH [of ?s] by (simp add: run_Cons)
qed


declare main_loop.simps [simp del]

lemma Simulation_update_simTime: "simTime (Simulation_update d step s) = simTime s + step"
  by (simp add: Simulation_update_eq update_lanes_fields generateVehicle_eq)

lemma run_simTime: "simTime (run ds s) = simTime s + int (length ds)"
  by (induction ds arbitrary: s) (simp_all add: run_Nil run_Cons Simulation_update_simTime)

lemma main_loop_run:
  "simTime s + int n = 60 \<Longrightarrow>
   \<exists>frames. main_loop rng k s out = Some (k + n, run (map rng [k..<k + n]) s, out @ frames) \<and>
     length frames = n"
proof (induction n arbitrary: k s out)
  case 0
  then have "\<not> isRunning s" by (simp add: isRunning_def)
  then show ?case by (subst main_loop.simps) (simp add: run_Nil)
next
  case (Suc n)
  let ?s1 = "Simulation_update (rng k) 1 s"
  have running: "isRunning s" using Suc.prems by (simp add: isRunning_def)
  obtain rows where rows: "display ?s1 = Some (simTime ?s1, rows)"
    using display_total [of ?s1] by blast
  have "simTime ?s1 + int n = 60"
    using Suc.prems by (simp add: Simulation_update_simTime)
  then obtain frames where f:
    "main_loop rng (Suc k) ?s1 (out @ [Frame (simTime ?s1, rows)]) =
       Some (Suc k + n, run (map rng [Suc k..<Suc k + n]) ?s1, (out @ [Frame (simTime ?s1, rows)]) @ frames)"
    "length frames = n"
    using Suc.IH [of ?s1 "Suc k" "out @ [Frame (simTime ?s1, rows)]"] by blast
  have "main_loop rng k s out = main_loop rng (Suc k) ?s1 (out @ [Frame (simTime ?s1, rows)])"
    using running rows by (subst main_loop.simps) (simp add: Let_def)
  moreover have "[k..<k + Suc n] = k # [Suc k..<Suc k + n]"
    by (simp add: upt_conv_Cons)
  ultimately have "main_loop rng k s out =
      Some (k + Suc n, run (map rng [k..<k + Suc n]) s, out @ (Frame (simTime ?s1, rows) # frames))"
    using f(1) by (simp add: run_Cons)
  then show ?case
    using f(2) by (intro exI [of _ "Frame (simTime ?s1, rows) # frames"]) simp
qed


lemma setup_fields:
  "lanes (Simulation_setup Simulation_ctor) = [Lane_ctor 1 (D 500) (D 50), Lane_ctor 2 (D 600) (D 40)]"
  "heap (Simulation_setup Simulation_ctor) = []"
  "all_vehicles (Simulation_setup Simulation_ctor) = []"
  "nextId (Simulation_setup Simulation_ctor) = 1"
  "simTime (Simulation_setup Simulation_ctor) = 0"
  by (simp_all add: Simulation_setup_def Simulation_ctor_def Let_def)

text \<open>
  Claim C6. Whatever the random engine hands out, the loop of \<^verbatim>\<open>main\<close> ends: it runs
  \<^verbatim>\<open>update(1)\<close> and \<^verbatim>\<open>display\<close> exactly 60 times. In the state reached the clock is
  60 and \<^verbatim>\<open>isRunning\<close> is false, after fewer than 60 ticks it is true. \<^verbatim>\<open>main\<close> has
  then printed 60 frames and the line "Simulation ended." and returns 0.
\<close>

theorem main_sixty_ticks:
  "\<exists>out. main_loop rng 0 (Simulation_setup Simulation_ctor) [] =
       Some (60, run (map rng [0..<60]) (Simulation_setup Simulation_ctor), out) \<and>
     length out = 60 \<and>
     simTime (run (map rng [0..<60]) (Simulation_setup Simulation_ctor)) = 60 \<and>
     \<not> isRunning (run (map rng [0..<60]) (Simulation_setup Simulation_ctor)) \<and>
     (\<forall>k < 60. isRunning (run (map rng [0..<k]) (Simulation_setup Simulation_ctor))) \<and>
     main rng = Some (out @ [Text (''Simulation ended.'' @ [CHR 0x0A])], 0)"
proof -
  let ?s0 = "Simulation_setup Simulation_ctor"
  have "simTime ?s0 + int 60 = 60"
    by (simp add: setup_fields)
  then obtain out where out:
    "main_loop rng 0 ?s0 [] = Some (0 + 60, run (map rng [0..<0 + 60]) ?s0, [] @ out)"
    "length out = 60"
    using main_loop_run [of ?s0 60 rng 0 "[]"] by blast
  have time: "simTime (run (map rng [0..<k]) ?s0) = int k" for k
    by (simp add: run_simTime setup_fields)
  have "main rng = Some (out @ [Text (''Simulation ended.'' @ [CHR 0x0A])], 0)"
    using out(1) by (simp add: main_def)
  moreover have "\<forall>k < 60. isRunning (run (map rng [0..<k]) ?s0)"
    by (simp add: isRunning_def time)
  moreover have "\<not> isRunning (run (map rng [0..<60]) ?s0)"
    by (simp add: isRunning_def time)
  ultimately show ?thesis
    using out time [of 60] by auto
qed

theorem main_sixty_ticks_witness:
  "\<exists>out. main_loop quiet_rng 0 (Simulation_setup Simulation_ctor) [] =
       Some (60, run (map quiet_rng [0..<60]) (Simulation_setup Simulation_ctor), out) \<and>
     length out = 60 \<and> (59::nat) < 60 \<and>
     isRunning (run (map quiet_rng [0..<59]) (Simulation_setup Simulation_ctor)) \<and>
     main quiet_rng = Some (out @ [Text (''Simulation ended.'' @ [CHR 0x0A])], 0)"
proof -
  obtain out where out:
    "main_loop quiet_rng 0 (Simulation_setup Simulation_ctor) [] =
       Some (60, run (map quiet_rng [0..<60]) (Simulation_setup Simulation_ctor), out)"
    "length out = 60"
    "\<forall>k < 60. isRunning (run (map quiet_rng [0..<k]) (Simulation_setup Simulation_ctor))"
    "main quiet_rng = Some (out @ [Text (''Simulation ended.'' @ [CHR 0x0A])], 0)"
    using main_sixty_ticks [of quiet_rng] by blast
  have "isRunning (run (map quiet_rng [0..<59]) (Simulation_setup Simulation_ctor))"
    using out(3) by simp
  then show ?thesis
    using out(1,2,4) by simp
qed

lemma draw_vehicles_heap_other:
  "p \<notin> set ps \<Longrightarrow> draw_vehicles lane (h[p := v]) ps road = draw_vehicles lane h ps road"
  by (induction ps arbitrary: road) (auto simp: Let_def split: option.splits)

lemma display_lanes_heap_other:
  "\<not> in_some_lane ls p \<Longrightarrow> display_lanes (h[p := v]) ls = display_lanes h ls"
  by (induction ls)
    (simp_all add: in_some_lane_def display_lane_def draw_vehicles_heap_other split: option.splits)

lemma display_heap_other:
  "\<not> in_some_lane (lanes s) p \<Longrightarrow> display (s\<lparr>heap := (heap s)[p := v]\<rparr>) = display s"
  by (simp add: display_def display_lanes_heap_other split: option.splits)

lemma setup_ptrs_valid: "ptrs_valid (Simulation_setup Simulation_ctor)"
  by (simp add: ptrs_valid_def setup_fields Lane_ctor_def)

section \<open>A run with one car\<close>

text \<open>
  The car of 36 km/h that is generated in the first tick advances by 10 m in every tick,
  all sums being exact in doubles. It is 480 m along in tick 48, passes the stop line in
  tick 49, when the light is green, and reaches the end of the lane in tick 50.
\<close>

lemma one_car_step: "val (D 36 * D 1000 / D 3600 * D 1) = 10"
  by code_simp

lemma round_double_tens: "k \<le> 50 \<Longrightarrow> round_double (real (10 * k)) = real (10 * k)"
proof -
  assume "k \<le> 50"
  then have "\<bar>int (10 * k)\<bar> \<le> 9007199254740992"
    by linarith
  then have "\<bar>int (10 * k)\<bar> \<le> 2 ^ 53"
    by simp
  then have "round_double (of_int (int (10 * k))) = of_int (int (10 * k))"
    by (rule round_double_of_int)
  then show ?thesis
    by (simp only: of_int_of_nat_eq)
qed

lemma one_car_position: "k \<le> 50 \<Longrightarrow> val (position (one_car k)) = real (10 * k)"
  by (simp add: one_car_def round_double_tens del: of_nat_mult)

lemma one_car_candidate:
  assumes "k \<le> 49"
  shows "val (candidate (D 1) (one_car k)) = real (10 * Suc k)"
proof -
  have "val (candidate (D 1) (one_car k)) =
      round_double (val (position (one_car k)) + val (D 36 * D 1000 / D 3600 * D 1))"
    by (simp add: candidate_def one_car_def)
  also have "\<dots> = round_double (real (10 * k) + 10)"
    using assms by (simp only: one_car_step one_car_position)
  also have "real (10 * k) + 10 = real (10 * Suc k)"
    by simp
  also have "round_double (real (10 * Suc k)) = real (10 * Suc k)"
    using assms by (intro round_double_tens) simp
  finally show ?thesis .
qed

lemma move_one_car:
  assumes "k \<le> 49" and "len (L ! 0) = D 500" and "k = 48 \<longrightarrow> state (light (L ! 0)) = GREEN"
  shows "move L (D 1) (one_car k) = one_car (Suc k)"
proof -
  have lane: "currentLane (one_car k) = Some 0"
    by (simp add: one_car_def)
  have line: "val (len (L ! 0) - D 10) = 490"
    by (simp add: assms(2))
  have pos: "val (position (one_car k)) = real (10 * k)"
    using assms(1) by (simp add: one_car_position)
  have cand: "val (candidate (D 1) (one_car k)) = real (10 * Suc k)"
    using assms(1) by (rule one_car_candidate)
  have rule: "stop_line_rule L (D 1) (one_car k) \<longleftrightarrow>
      state (light (L ! 0)) \<noteq> GREEN \<and> real (10 * k) < 490 \<and> 490 \<le> real (10 * Suc k)"
    unfolding stop_line_rule_def lane option.case less_double_def less_eq_double_def line pos cand
    by (rule refl)
  have "\<not> stop_line_rule L (D 1) (one_car k)"
  proof (cases "k \<le> 47")
    case True
    then have "\<not> 490 \<le> real (10 * Suc k)" by simp
    then show ?thesis
      unfolding rule by blast
  next
    case False
    then consider "k = 48" | "k = 49" using assms(1) by linarith
    then show ?thesis
    proof cases
      case 1
      then show ?thesis unfolding rule using assms(3) by blast
    next
      case 2
      then have "\<not> real (10 * k) < 490" by simp
      then show ?thesis
        unfolding rule by blast
    qed
  qed
  then have "move L (D 1) (one_car k) = (one_car k)\<lparr>position := candidate (D 1) (one_car k)\<rparr>"
    by (simp add: move_cases [OF lane])
  moreover have "candidate (D 1) (one_car k) = D (real (10 * Suc k))"
    unfolding double_eq_iff cand val_D using assms(1) by (intro round_double_tens [symmetric]) simp
  ultimately show ?thesis
    by (simp add: one_car_def)
qed

lemma one_car_at_end: "k \<le> 50 \<Longrightarrow> D 500 \<le> position (one_car k) \<longleftrightarrow> k = 50"
proof -
  assume k: "k \<le> 50"
  have "500 \<le> real (10 * k) \<longleftrightarrow> k = 50"
    using k by auto
  then show ?thesis
    using k by (simp add: less_eq_double_def one_car_position del: of_nat_mult)
qed

lemma update_lanes_one_car:
  assumes "k \<le> 48" and "k = 48 \<longrightarrow> state (TrafficLight_update 1 t0) = GREEN"
  shows "update_lanes 1 ((one_car_state k t0 t1)\<lparr>simTime := T\<rparr>) =
     (one_car_state (Suc k) (TrafficLight_update 1 t0) (TrafficLight_update 1 t1))\<lparr>simTime := T\<rparr>"
proof -
  have two: "[0..<Suc (Suc 0)] = [0, Suc 0]"
    by simp
  have k: "k \<le> 49" "Suc k \<le> 50" "Suc k \<noteq> 50"
    using assms(1) by simp_all
  show ?thesis
    using assms(2) k
    by (simp add: update_lanes_def one_car_state_def Lane_update_def Let_def two move_one_car
        one_car_at_end del: upt_Suc)
qed

lemma update_lanes_one_car_leaves:
  "update_lanes 1 ((one_car_state 49 t0 t1)\<lparr>simTime := 50\<rparr>) =
     one_car_gone (TrafficLight_update 1 t0) (TrafficLight_update 1 t1)"
proof -
  have two: "[0..<Suc (Suc 0)] = [0, Suc 0]"
    by simp
  have m: "move L (D 1) (one_car 49) = one_car 50" if "len (L ! 0) = D 500" for L
    using move_one_car [of 49 L] that by simp
  have e: "D 500 \<le> position (one_car 50)"
    by (simp add: one_car_at_end)
  show ?thesis
    by (simp add: update_lanes_def one_car_state_def one_car_gone_def Lane_update_def Let_def two m e
        del: upt_Suc)
qed

lemma quiet_tick:
  assumes "0 < k"
  shows "\<not> spawns (one_car_rng k)"
proof -
  have "\<not> val (D (1 / 2)) < val (D (3 / 10))"
    by code_simp
  then show ?thesis
    using assms by (simp add: spawns_iff one_car_rng_def less_double_def)
qed

lemma first_tick_draws:
  "spawns (one_car_rng 0) \<and> drawn_type (one_car_rng 0) = CAR \<and>
   val (drawn_speed (one_car_rng 0)) = 36 \<and> drawn_lane (Simulation_setup Simulation_ctor) (one_car_rng 0) = 0"
  by code_simp

lemma run_append: "run (ds @ es) s = run es (run ds s)"
  by (simp add: run_def)

lemma tick_one_car:
  assumes "k \<le> 48" and "\<not> spawns d" and "k = 48 \<longrightarrow> state (TrafficLight_update 1 t0) = GREEN"
  shows "Simulation_update d 1 (one_car_state k t0 t1) =
     one_car_state (Suc k) (TrafficLight_update 1 t0) (TrafficLight_update 1 t1)"
proof -
  have "Simulation_update d 1 (one_car_state k t0 t1) =
      update_lanes 1 ((one_car_state k t0 t1)\<lparr>simTime := int (Suc k)\<rparr>)"
    using assms(2) by (simp add: Simulation_update_eq) (simp add: one_car_state_def add.commute)
  also have "\<dots> = (one_car_state (Suc k) (TrafficLight_update 1 t0) (TrafficLight_update 1 t1))
      \<lparr>simTime := int (Suc k)\<rparr>"
    using assms(1,3) by (rule update_lanes_one_car)
  also have "\<dots> = one_car_state (Suc k) (TrafficLight_update 1 t0) (TrafficLight_update 1 t1)"
    by (simp add: one_car_state_def)
  finally show ?thesis .
qed

lemma tick_one_car_leaves:
  assumes "\<not> spawns d"
  shows "Simulation_update d 1 (one_car_state 49 t0 t1) =
     one_car_gone (TrafficLight_update 1 t0) (TrafficLight_update 1 t1)"
proof -
  have "Simulation_update d 1 (one_car_state 49 t0 t1) =
      update_lanes 1 ((one_car_state 49 t0 t1)\<lparr>simTime := 50\<rparr>)"
    using assms by (simp add: Simulation_update_eq) (simp add: one_car_state_def)
  then show ?thesis
    by (simp only: update_lanes_one_car_leaves)
qed

lemma run_one_car:
  "\<forall>d \<in> set ds. \<not> spawns d \<Longrightarrow> k + length ds \<le> 48 \<Longrightarrow>
   run ds (one_car_state k t0 t1) =
     one_car_state (k + length ds) (TrafficLight_updates (replicate (length ds) 1) t0)
       (TrafficLight_updates (replicate (length ds) 1) t1)"
proof (induction ds arbitrary: k t0 t1)
  case Nil
  then show ?case by (simp add: run_Nil TrafficLight_updates_def)
next
  case (Cons d ds)
  have "Simulation_update d 1 (one_car_state k t0 t1) =
      one_car_state (Suc k) (TrafficLight_update 1 t0) (TrafficLight_update 1 t1)"
    using Cons.prems by (intro tick_one_car) simp_all
  then show ?case
    using Cons.IH [of "Suc k" "TrafficLight_update 1 t0" "TrafficLight_update 1 t1"] Cons.prems
    by (simp add: run_Cons TrafficLight_updates_def)
qed

lemma first_tick:
  "Simulation_update (one_car_rng 0) 1 (Simulation_setup Simulation_ctor) =
     one_car_state 1 (TrafficLight_update 1 (TrafficLight_ctor 10 3 7))
       (TrafficLight_update 1 (TrafficLight_ctor 10 3 7))"
proof -
  let ?c = "TrafficLight_ctor 10 3 7"
  have speed: "drawn_speed (one_car_rng 0) = D 36"
    using first_tick_draws by (simp add: double_eq_iff)
  have "generateVehicle (one_car_rng 0) ((Simulation_setup Simulation_ctor)\<lparr>simTime := 1\<rparr>) =
      (one_car_state 0 ?c ?c)\<lparr>simTime := 1\<rparr>"
    using first_tick_draws
    by (simp add: generateVehicle_eq speed)
      (simp add: Simulation_setup_def Simulation_ctor_def Let_def one_car_state_def one_car_def
        Lane_ctor_def)
  then have "Simulation_update (one_car_rng 0) 1 (Simulation_setup Simulation_ctor) =
      update_lanes 1 ((one_car_state 0 ?c ?c)\<lparr>simTime := 1\<rparr>)"
    using first_tick_draws by (simp add: Simulation_update_eq setup_fields)
  also have "\<dots> = (one_car_state (Suc 0) (TrafficLight_update 1 ?c) (TrafficLight_update 1 ?c))
      \<lparr>simTime := 1\<rparr>"
    by (rule update_lanes_one_car) simp_all
  also have "\<dots> = one_car_state 1 (TrafficLight_update 1 ?c) (TrafficLight_update 1 ?c)"
    by (simp add: one_car_state_def)
  finally show ?thesis .
qed

lemma light_green_in_tick_49:
  "state (TrafficLight_update 1 (TrafficLight_updates (replicate 47 1)
     (TrafficLight_update 1 (TrafficLight_ctor 10 3 7)))) = GREEN"
  by code_simp

lemma one_car_after_49:
  "\<exists>t0 t1. run (map one_car_rng [0..<49]) (Simulation_setup Simulation_ctor) = one_car_state 49 t0 t1"
proof -
  let ?init = "Simulation_setup Simulation_ctor"
  let ?c = "TrafficLight_update 1 (TrafficLight_ctor 10 3 7)"
  let ?t = "TrafficLight_updates (replicate 47 1) ?c"
  have split: "[0..<49] = 0 # [1..<48] @ [48]"
    by (simp add: upt_conv_Cons del: upt_Suc)
  have quiet: "\<forall>d \<in> set (map one_car_rng [1..<48]). \<not> spawns d"
    by (auto simp: quiet_tick simp del: upt_Suc)
  have "run (map one_car_rng [1..<48]) (one_car_state 1 ?c ?c) =
      one_car_state (1 + length (map one_car_rng [1..<48]))
        (TrafficLight_updates (replicate (length (map one_car_rng [1..<48])) 1) ?c)
        (TrafficLight_updates (replicate (length (map one_car_rng [1..<48])) 1) ?c)"
    using quiet by (intro run_one_car) simp_all
  then have middle: "run (map one_car_rng [1..<48]) (one_car_state 1 ?c ?c) = one_car_state 48 ?t ?t"
    by simp
  have "run (map one_car_rng [0..<49]) ?init =
      Simulation_update (one_car_rng 48) 1 (run (map one_car_rng [1..<48])
        (Simulation_update (one_car_rng 0) 1 ?init))"
    unfolding split by (simp only: list.map map_append run_Cons run_append run_Nil)
  also have "\<dots> = Simulation_update (one_car_rng 48) 1 (one_car_state 48 ?t ?t)"
    by (simp only: first_tick middle)
  also have "\<dots> = one_car_state (Suc 48) (TrafficLight_update 1 ?t) (TrafficLight_update 1 ?t)"
    using light_green_in_tick_49 by (intro tick_one_car) (simp_all add: quiet_tick)
  finally show ?thesis
    by auto
qed

lemma one_car_after_50:
  "\<exists>t0 t1. run (map one_car_rng [0..<50]) (Simulation_setup Simulation_ctor) = one_car_gone t0 t1"
proof -
  obtain t0 t1 where s: "run (map one_car_rng [0..<49]) (Simulation_setup Simulation_ctor) =
      one_car_state 49 t0 t1"
    using one_car_after_49 by blast
  have "[0..<50] = [0..<49] @ [49]"
    using upt_Suc_append [of 0 49] by simp
  then have "run (map one_car_rng [0..<50]) (Simulation_setup Simulation_ctor) =
      Simulation_update (one_car_rng 49) 1 (one_car_state 49 t0 t1)"
    by (simp only: map_append list.map run_snoc s)
  then have "run (map one_car_rng [0..<50]) (Simulation_setup Simulation_ctor) =
      one_car_gone (TrafficLight_update 1 t0) (TrafficLight_update 1 t1)"
    by (simp add: tick_one_car_leaves quiet_tick)
  then show ?thesis
    by blast
qed

text \<open>
  Claim C7. In a state whose lane pointers address allocated vehicles (so in every state of
  the program, last conjunct), take an allocated vehicle that is in the vector of no lane:
  it has been removed, as a vehicle is put into a lane when it is allocated. After any number
  of further ticks it is still in no lane, and \<^verbatim>\<open>display\<close> prints the same whatever that
  vehicle object holds: the rendering reads the vehicles through the vectors of the lanes only.
  (In the instance a car of 36 km/h, generated in the first tick, is in lane 1 at 490 m
  after tick 49 and leaves the lane in tick 50.)
\<close>

theorem removed_never_rendered:
  assumes "ptrs_valid s"
    and "p < length (heap s)"
    and "\<not> in_some_lane (lanes s) p"
  shows "\<not> in_some_lane (lanes (run ds s)) p \<and>
         (\<forall>v. display ((run ds s)\<lparr>heap := (heap (run ds s))[p := v]\<rparr>) = display (run ds s)) \<and>
         ptrs_valid (run ds s) \<and>
         ptrs_valid (run ds0 (Simulation_setup Simulation_ctor))"
proof -
  have "\<not> in_some_lane (lanes (run ds s)) p"
    using assms by (rule run_removed)
  then show ?thesis
    using assms(1) by (simp add: display_heap_other run_ptrs_valid setup_ptrs_valid)
qed

theorem removed_never_rendered_witness:
  "map vehicles (lanes (run (map one_car_rng [0..<49]) (Simulation_setup Simulation_ctor))) = [[0], []] \<and>
   map (\<lambda>v. val (position v))
     (heap (run (map one_car_rng [0..<49]) (Simulation_setup Simulation_ctor))) = [490] \<and>
   0 < length (heap (run (map one_car_rng [0..<50]) (Simulation_setup Simulation_ctor))) \<and>
   \<not> in_some_lane (lanes (run (map one_car_rng [0..<50]) (Simulation_setup Simulation_ctor))) 0 \<and>
   \<not> in_some_lane (lanes (run (map one_car_rng [50..<60])
        (run (map one_car_rng [0..<50]) (Simulation_setup Simulation_ctor)))) 0 \<and>
   display ((run (map one_car_rng [50..<60])
        (run (map one_car_rng [0..<50]) (Simulation_setup Simulation_ctor)))
      \<lparr>heap := (heap (run (map one_car_rng [50..<60])
        (run (map one_car_rng [0..<50]) (Simulation_setup Simulation_ctor))))[0 := car_ex]\<rparr>) =
   display (run (map one_car_rng [50..<60])
        (run (map one_car_rng [0..<50]) (Simulation_setup Simulation_ctor)))"
proof -
  let ?init = "Simulation_setup Simulation_ctor"
  let ?gone = "run (map one_car_rng [0..<50]) ?init"
  obtain t0 t1 where before: "run (map one_car_rng [0..<49]) ?init = one_car_state 49 t0 t1"
    using one_car_after_49 by blast
  obtain u0 u1 where after: "?gone = one_car_gone u0 u1"
    using one_car_after_50 by blast
  have there: "map vehicles (lanes (run (map one_car_rng [0..<49]) ?init)) = [[0], []]"
    "map (\<lambda>v. val (position v)) (heap (run (map one_car_rng [0..<49]) ?init)) = [490]"
    unfolding before using one_car_position [of 49] by (simp_all add: one_car_state_def)
  have allocated: "0 < length (heap ?gone)"
    unfolding after by (simp add: one_car_gone_def)
  have gone: "\<not> in_some_lane (lanes ?gone) 0"
    unfolding after by (simp add: in_some_lane_def one_car_gone_def)
  have valid: "ptrs_valid ?gone"
    using setup_ptrs_valid by (rule run_ptrs_valid)
  show ?thesis
    using there allocated gone
      removed_never_rendered [OF valid allocated gone, of "map one_car_rng [50..<60]" "[]"]
    by blast
qed

section \<open>The lights of the two lanes\<close>

lemma Simulation_update_lanes_length:
  "length (lanes (Simulation_update d step s)) = length (lanes s)"
  by (simp add: Simulation_update_eq update_lanes_fields generateVehicle_eq)

lemma generateVehicle_light:
  "j < length (lanes s) \<Longrightarrow> light (lanes (generateVehicle d s) ! j) = light (lanes s ! j)"
  by (cases "j = drawn_lane s d") (simp_all add: generateVehicle_eq)

lemma generateVehicle_lanes_length: "length (lanes (generateVehicle d s)) = length (lanes s)"
  by (simp add: generateVehicle_eq)

lemma Simulation_update_light:
  "j < length (lanes s) \<Longrightarrow>
   light (lanes (Simulation_update d step s) ! j) = TrafficLight_update step (light (lanes s ! j))"
  by (simp add: Simulation_update_eq update_lanes_light generateVehicle_light
      generateVehicle_lanes_length)

lemma run_lanes_length: "length (lanes (run ds s)) = length (lanes s)"
  by (induction ds arbitrary: s) (simp_all add: run_Nil run_Cons Simulation_update_lanes_length)

lemma run_light:
  "j < length (lanes s) \<Longrightarrow>
   light (lanes (run ds s) ! j) = TrafficLight_updates (replicate (length ds) 1) (light (lanes s ! j))"
proof (induction ds arbitrary: s)
  case Nil
  then show ?case by (simp add: run_Nil TrafficLight_updates_def)
next
  case (Cons d ds)
  then show ?case
    by (simp add: run_Cons Simulation_update_lanes_length Simulation_update_light
        TrafficLight_updates_def)
qed

lemma red_count:
  "n < 7 \<Longrightarrow>
   TrafficLight_updates (replicate n 1) (TrafficLight_ctor 10 3 7) =
     (TrafficLight_ctor 10 3 7)\<lparr>timer := int n\<rparr>"
proof (induction n)
  case 0
  then show ?case by (simp add: TrafficLight_updates_def TrafficLight_ctor_def)
next
  case (Suc n)
  have "replicate (Suc n) (1::int) = replicate n 1 @ [1]"
    by (simp add: replicate_append_same)
  then show ?case using Suc
    by (simp add: TrafficLight_updates_def TrafficLight_ctor_def TrafficLight_update_cycle dwell_def)
qed

lemma red_seven:
  "TrafficLight_updates (replicate 7 1) (TrafficLight_ctor 10 3 7) =
     (TrafficLight_ctor 10 3 7)\<lparr>state := GREEN\<rparr>"
proof -
  have "replicate 7 (1::int) = replicate (Suc 6) 1"
    by simp
  then have "replicate 7 (1::int) = replicate 6 1 @ [1]"
    by (simp only: replicate_Suc replicate_append_same)
  then have "TrafficLight_updates (replicate 7 1) (TrafficLight_ctor 10 3 7) =
      TrafficLight_update 1 ((TrafficLight_ctor 10 3 7)\<lparr>timer := 6\<rparr>)"
    using red_count [of 6] by (simp add: TrafficLight_updates_def)
  then show ?thesis
    by (simp add: TrafficLight_update_cycle dwell_def TrafficLight_ctor_def)
qed

lemma two_lanes: "length xs = 2 \<Longrightarrow> map f xs = [f (xs ! 0), f (xs ! 1)]"
  by (cases xs; cases "tl xs") auto

lemma run_setup_lights:
  "map light (lanes (run ds (Simulation_setup Simulation_ctor))) =
     [TrafficLight_updates (replicate (length ds) 1) (TrafficLight_ctor 10 3 7),
      TrafficLight_updates (replicate (length ds) 1) (TrafficLight_ctor 10 3 7)]"
proof -
  let ?s0 = "Simulation_setup Simulation_ctor"
  have "length (lanes (run ds ?s0)) = 2"
    by (simp add: run_lanes_length setup_fields)
  then have "map light (lanes (run ds ?s0)) = [light (lanes (run ds ?s0) ! 0), light (lanes (run ds ?s0) ! 1)]"
    by (rule two_lanes)
  then show ?thesis
    by (simp add: run_light setup_fields Lane_ctor_def)
qed

text \<open>
  Claim C10. A traffic light is constructed RED with its timer at 0 and with the three
  durations it is given, and the light of a lane is constructed with the durations
  green 10, yellow 3, red 7. So after \<^verbatim>\<open>setup\<close> both lights are RED, after fewer than
  seven ticks with step 1 both are still RED, whatever was drawn, and after the seventh
  tick both are GREEN.
\<close>

theorem lights_red_seven_ticks:
  "state (TrafficLight_ctor g y r) = RED \<and> timer (TrafficLight_ctor g y r) = 0 \<and>
   greenTime (TrafficLight_ctor g y r) = g \<and> yellowTime (TrafficLight_ctor g y r) = y \<and>
   redTime (TrafficLight_ctor g y r) = r \<and>
   light (Lane_ctor i l limit) = TrafficLight_ctor 10 3 7 \<and>
   greenTime (light (Lane_ctor i l limit)) = 10 \<and>
   yellowTime (light (Lane_ctor i l limit)) = 3 \<and>
   redTime (light (Lane_ctor i l limit)) = 7 \<and>
   state (light (Lane_ctor i l limit)) = RED \<and> timer (light (Lane_ctor i l limit)) = 0 \<and>
   map (\<lambda>lane. state (light lane)) (lanes (Simulation_setup Simulation_ctor)) = [RED, RED] \<and>
   map (\<lambda>lane. (greenTime (light lane), yellowTime (light lane), redTime (light lane)))
     (lanes (Simulation_setup Simulation_ctor)) = [(10, 3, 7), (10, 3, 7)] \<and>
   (\<forall>ds. length ds < 7 \<longrightarrow>
      map (\<lambda>lane. state (light lane)) (lanes (run ds (Simulation_setup Simulation_ctor))) = [RED, RED]) \<and>
   (\<forall>ds. length ds = 7 \<longrightarrow>
      map (\<lambda>lane. state (light lane)) (lanes (run ds (Simulation_setup Simulation_ctor))) = [GREEN, GREEN])"
proof -
  let ?s0 = "Simulation_setup Simulation_ctor"
  have m: "map (\<lambda>lane. state (light lane)) (lanes (run ds ?s0)) =
    map state (map light (lanes (run ds ?s0)))" for ds
    by simp
  have before: "map (\<lambda>lane. state (light lane)) (lanes (run ds ?s0)) = [RED, RED]"
    if "length ds < 7" for ds
    unfolding m run_setup_lights using that by (simp add: red_count) (simp add: TrafficLight_ctor_def)
  have seventh: "map (\<lambda>lane. state (light lane)) (lanes (run ds ?s0)) = [GREEN, GREEN]"
    if "length ds = 7" for ds
    unfolding m run_setup_lights using that by (simp add: red_seven)
  have start: "map (\<lambda>lane. state (light lane)) (lanes ?s0) = [RED, RED]"
    "map (\<lambda>lane. (greenTime (light lane), yellowTime (light lane), redTime (light lane)))
       (lanes ?s0) = [(10, 3, 7), (10, 3, 7)]"
    by (simp_all add: setup_fields Lane_ctor_def TrafficLight_ctor_def)
  have ctor: "state (TrafficLight_ctor g y r) = RED" "timer (TrafficLight_ctor g y r) = 0"
    "greenTime (TrafficLight_ctor g y r) = g" "yellowTime (TrafficLight_ctor g y r) = y"
    "redTime (TrafficLight_ctor g y r) = r"
    by (simp_all add: TrafficLight_ctor_def)
  have lane: "light (Lane_ctor i l limit) = TrafficLight_ctor 10 3 7"
    "greenTime (light (Lane_ctor i l limit)) = 10"
    "yellowTime (light (Lane_ctor i l limit)) = 3"
    "redTime (light (Lane_ctor i l limit)) = 7"
    "state (light (Lane_ctor i l limit)) = RED" "timer (light (Lane_ctor i l limit)) = 0"
    by (simp_all add: TrafficLight_ctor_def Lane_ctor_def)
  show ?thesis
    using before seventh start ctor lane by blast
qed

theorem lights_red_seven_ticks_witness:
  "length (map busy_rng [0..<6]) < 7 \<and> length (map busy_rng [0..<7]) = 7 \<and>
   yellowTime (TrafficLight_ctor 10 3 7) = 3 \<and>
   map (\<lambda>lane. state (light lane))
     (lanes (run (map busy_rng [0..<6]) (Simulation_setup Simulation_ctor))) = [RED, RED] \<and>
   map (\<lambda>lane. state (light lane))
     (lanes (run (map busy_rng [0..<7]) (Simulation_setup Simulation_ctor))) = [GREEN, GREEN]"
proof -
  note c = lights_red_seven_ticks [of 10 3 7 1 "D 500" "D 50"]
  have six: "length (map busy_rng [0..<6]) < 7" and seven: "length (map busy_rng [0..<7]) = 7"
    by simp_all
  have "map (\<lambda>lane. state (light lane))
     (lanes (run (map busy_rng [0..<6]) (Simulation_setup Simulation_ctor))) = [RED, RED]"
    using c six by blast
  moreover have "map (\<lambda>lane. state (light lane))
     (lanes (run (map busy_rng [0..<7]) (Simulation_setup Simulation_ctor))) = [GREEN, GREEN]"
    using c seven by blast
  moreover have "yellowTime (TrafficLight_ctor 10 3 7) = 3"
    using c by blast
  ultimately show ?thesis
    using six seven by blast
qed

section \<open>One tick of the simulation\<close>

lemma generateVehicle_ids_fresh: "ids_fresh s \<Longrightarrow> ids_fresh (generateVehicle d s)"
  by (auto simp: ids_fresh_def generateVehicle_eq)

lemma update_lanes_ids_fresh: "ids_fresh s \<Longrightarrow> ids_fresh (update_lanes step s)"
  by (simp add: ids_fresh_def update_lanes_fields)

lemma Simulation_update_ids_fresh: "ids_fresh s \<Longrightarrow> ids_fresh (Simulation_update d step s)"
proof -
  assume "ids_fresh s"
  then have "ids_fresh (s\<lparr>simTime := simTime s + step\<rparr>)"
    by (simp add: ids_fresh_def)
  then show ?thesis
    by (simp add: Simulation_update_eq update_lanes_ids_fresh generateVehicle_ids_fresh)
qed

lemma setup_ids_fresh: "ids_fresh (Simulation_setup Simulation_ctor)"
  by (simp add: ids_fresh_def setup_fields)

lemma drawn_type_interval:
  assumes "0 \<le> val (typeDraw d)" "val (typeDraw d) < 1" "k < 4"
  shows "drawn_type d = [CAR, BUS, TRUCK, MOTORCYCLE] ! k \<longleftrightarrow>
     real k / 4 \<le> val (typeDraw d) \<and> val (typeDraw d) < (real k + 1) / 4"
proof -
  define j where "j = uniform_int_distribution 0 3 (typeDraw d)"
  have "0 \<le> j \<and> j \<le> 3"
    unfolding j_def using assms(1,2) by (intro uniform_int_distribution_range) simp_all
  then have j: "j = 0 \<or> j = 1 \<or> j = 2 \<or> j = 3"
    by linarith
  have k: "k = 0 \<or> k = 1 \<or> k = 2 \<or> k = 3"
    using assms(3) by linarith
  have "static_cast_VehicleType j = [CAR, BUS, TRUCK, MOTORCYCLE] ! k \<longleftrightarrow> j = 0 + int k"
    using j k by (elim disjE) (simp_all add: static_cast_VehicleType_def)
  moreover have "drawn_type d = static_cast_VehicleType j"
    by (simp add: drawn_type_def j_def)
  ultimately have "drawn_type d = [CAR, BUS, TRUCK, MOTORCYCLE] ! k \<longleftrightarrow> j = 0 + int k"
    by (simp only:)
  also have "\<dots> \<longleftrightarrow> real_of_int (int k) / real_of_int (3 - 0 + 1) \<le> val (typeDraw d) \<and>
      val (typeDraw d) < (real_of_int (int k) + 1) / real_of_int (3 - 0 + 1)"
    unfolding j_def by (rule uniform_int_distribution_interval) simp
  finally show ?thesis
    by simp
qed

lemma drawn_lane_interval:
  assumes "0 \<le> val (laneDraw d)" "val (laneDraw d) < 1" "lanes s \<noteq> []"
  shows "drawn_lane s d < length (lanes s) \<and>
     (\<forall>k < length (lanes s). drawn_lane s d = k \<longleftrightarrow>
        real k / real (length (lanes s)) \<le> val (laneDraw d) \<and>
        val (laneDraw d) < (real k + 1) / real (length (lanes s)))"
proof -
  define n where "n = length (lanes s)"
  define j where "j = uniform_int_distribution 0 (int n - 1) (laneDraw d)"
  have n: "0 < n"
    using assms(3) by (simp add: n_def)
  then have le: "(0::int) \<le> int n - 1"
    by simp
  have j: "0 \<le> j \<and> j \<le> int n - 1"
    unfolding j_def using le assms(1,2) by (rule uniform_int_distribution_range)
  have lane: "drawn_lane s d = nat j"
    by (simp add: drawn_lane_def j_def n_def)
  have "nat j = k \<longleftrightarrow>
      real k / real n \<le> val (laneDraw d) \<and> val (laneDraw d) < (real k + 1) / real n" for k
  proof -
    have "nat j = k \<longleftrightarrow> j = 0 + int k"
      using j by auto
    also have "\<dots> \<longleftrightarrow> real_of_int (int k) / real_of_int (int n - 1 - 0 + 1) \<le> val (laneDraw d) \<and>
        val (laneDraw d) < (real_of_int (int k) + 1) / real_of_int (int n - 1 - 0 + 1)"
      unfolding j_def using le by (rule uniform_int_distribution_interval)
    finally show ?thesis
      by simp
  qed
  moreover have "nat j < n"
    using j n by linarith
  ultimately show ?thesis
    by (simp add: lane n_def)
qed

text \<open>
  Claim C4. One tick \<^verbatim>\<open>Simulation::update(step)\<close> in a state with a lane, with draws \<open>d\<close>
  from [0, 1). The clock is advanced by \<open>step\<close> first (\<open>s1\<close>); then, exactly when
  the value that the distribution on [0, 1) returns for the draw \<open>coin d\<close>, which is the
  draw itself, is below the double \<^verbatim>\<open>0.3\<close>, \<^verbatim>\<open>generateVehicle\<close> runs once (\<open>g\<close>); last
  \<^verbatim>\<open>Lane::update\<close> runs on the lanes in the order of their indices. The double
  \<^verbatim>\<open>0.3\<close> is \<open>5404319552844595 / 2 ^ 54\<close>, the largest double below 3/10: a draw is below it
  exactly when it is below 3/10 and is not that double. A tick allocates one vehicle when
  the draw is below it and none otherwise. The generated vehicle has position 0 and the
  value of the counter as its id. Its kind is the \<open>k\<close>-th of the four kinds exactly when
  the draw for the kind lies in the \<open>k\<close>-th quarter of [0, 1); its speed is
  \<open>u * (50 - 20) + 20\<close> computed in doubles for the draw \<open>u\<close>, which lies in [20, 50]
  and is at most \<open>1 / 2 ^ 47\<close> away from \<open>20 + 30 u\<close>; its lane is the \<open>k\<close>-th of the \<open>n\<close>
  lanes exactly when the draw for the lane lies in the \<open>k\<close>-th of \<open>n\<close> intervals of the
  same length: uniform draws give uniform kinds, speeds and lanes. The pointer of the
  vehicle is appended to the vector of its lane and to the vector of the simulation, and
  the counter grows by one. When the ids of the allocated vehicles are pairwise different
  and below the counter, the new id is the id of none of them and the same holds again
  after the tick.
\<close>

theorem Simulation_update_tick:
  assumes "draws_ok d"
    and "lanes s \<noteq> []"
    and "s1 = s\<lparr>simTime := simTime s + step\<rparr>"
    and "g = generateVehicle d s1"
    and "s' = Simulation_update d step s"
  shows "s' = update_lanes step (if spawns d then g else s1) \<and>
         (spawns d \<longleftrightarrow> uniform_real_distribution (D 0) (D 1) (coin d) < D (3 / 10)) \<and>
         uniform_real_distribution (D 0) (D 1) (coin d) = coin d \<and>
         (spawns d \<longleftrightarrow> val (coin d) < 5404319552844595 / 18014398509481984) \<and>
         (spawns d \<longleftrightarrow> val (coin d) < 3 / 10 \<and> coin d \<noteq> D (3 / 10)) \<and>
         update_lanes step s2 =
           s2\<lparr>lanes := fst (update_each_lane step [0..<length (lanes s2)] (lanes s2, heap s2)),
              heap := snd (update_each_lane step [0..<length (lanes s2)] (lanes s2, heap s2))\<rparr> \<and>
         simTime s' = simTime s + step \<and>
         length (heap s') = (if spawns d then length (heap s) + 1 else length (heap s)) \<and>
         all_vehicles s' = (if spawns d then all_vehicles s @ [length (heap s)] else all_vehicles s) \<and>
         nextId s' = (if spawns d then nextId s + 1 else nextId s) \<and>
         heap g = heap s @ [\<lparr>vid = nextId s, vtype = drawn_type d, speed = drawn_speed d,
                              position = D 0, currentLane = Some (drawn_lane s d)\<rparr>] \<and>
         drawn_type d = static_cast_VehicleType (uniform_int_distribution 0 3 (typeDraw d)) \<and>
         (\<forall>k < 4. drawn_type d = [CAR, BUS, TRUCK, MOTORCYCLE] ! k \<longleftrightarrow>
            real k / 4 \<le> val (typeDraw d) \<and> val (typeDraw d) < (real k + 1) / 4) \<and>
         drawn_speed d = speedDraw d * (D 50 - D 20) + D 20 \<and>
         D 20 \<le> drawn_speed d \<and> drawn_speed d \<le> D 50 \<and>
         \<bar>val (drawn_speed d) - (20 + 30 * val (speedDraw d))\<bar> \<le> 1 / 2 ^ 47 \<and>
         drawn_lane s d =
           nat (uniform_int_distribution 0 (int (length (lanes s)) - 1) (laneDraw d)) \<and>
         drawn_lane s d < length (lanes s) \<and>
         (\<forall>k < length (lanes s). drawn_lane s d = k \<longleftrightarrow>
            real k / real (length (lanes s)) \<le> val (laneDraw d) \<and>
            val (laneDraw d) < (real k + 1) / real (length (lanes s))) \<and>
         lanes g = (lanes s)[drawn_lane s d := (lanes s ! drawn_lane s d)
                     \<lparr>vehicles := vehicles (lanes s ! drawn_lane s d) @ [length (heap s)]\<rparr>] \<and>
         vehicles (lanes g ! drawn_lane s d) = vehicles (lanes s ! drawn_lane s d) @ [length (heap s)] \<and>
         all_vehicles g = all_vehicles s @ [length (heap s)] \<and>
         nextId g = nextId s + 1 \<and>
         (ids_fresh s \<longrightarrow> nextId s \<notin> set (map vid (heap s)) \<and> ids_fresh g \<and> ids_fresh s')"
proof -
  have order: "s' = update_lanes step (if spawns d then g else s1)"
    by (simp add: assms(3,4,5) Simulation_update_eq)
  have coin: "spawns d \<longleftrightarrow> uniform_real_distribution (D 0) (D 1) (coin d) < D (3 / 10)"
    "uniform_real_distribution (D 0) (D 1) (coin d) = coin d"
    "spawns d \<longleftrightarrow> val (coin d) < 5404319552844595 / 18014398509481984"
    "spawns d \<longleftrightarrow> val (coin d) < 3 / 10 \<and> coin d \<noteq> D (3 / 10)"
    unfolding spawns_iff below_three_tenths [symmetric]
    by (simp_all only: uniform_real_distribution_0_1 less_double_def val_D_three_tenths)
  have lanes_order: "update_lanes step s2 =
           s2\<lparr>lanes := fst (update_each_lane step [0..<length (lanes s2)] (lanes s2, heap s2)),
              heap := snd (update_each_lane step [0..<length (lanes s2)] (lanes s2, heap s2))\<rparr>"
    by (rule update_lanes_eq)
  have g: "g = generateVehicle d s1"
    by (rule assms(4))
  have gen: "heap g = heap s @ [\<lparr>vid = nextId s, vtype = drawn_type d, speed = drawn_speed d,
                              position = D 0, currentLane = Some (drawn_lane s d)\<rparr>]"
    "lanes g = (lanes s)[drawn_lane s d := (lanes s ! drawn_lane s d)
                     \<lparr>vehicles := vehicles (lanes s ! drawn_lane s d) @ [length (heap s)]\<rparr>]"
    "all_vehicles g = all_vehicles s @ [length (heap s)]"
    "nextId g = nextId s + 1"
    by (simp_all add: g assms(3) generateVehicle_eq)
  have unfolded: "drawn_type d = static_cast_VehicleType (uniform_int_distribution 0 3 (typeDraw d))"
    "drawn_speed d = speedDraw d * (D 50 - D 20) + D 20"
    "drawn_lane s d = nat (uniform_int_distribution 0 (int (length (lanes s)) - 1) (laneDraw d))"
    by (simp_all add: drawn_type_def drawn_speed_def drawn_lane_def uniform_real_distribution_def)
  have lane: "drawn_lane s d < length (lanes s)"
    "\<forall>k < length (lanes s). drawn_lane s d = k \<longleftrightarrow>
            real k / real (length (lanes s)) \<le> val (laneDraw d) \<and>
            val (laneDraw d) < (real k + 1) / real (length (lanes s))"
    using drawn_lane_interval [of d s] assms(1,2) by (simp_all add: draws_ok_def)
  have into_lane: "vehicles (lanes g ! drawn_lane s d) = vehicles (lanes s ! drawn_lane s d) @ [length (heap s)]"
    using lane(1) by (simp add: gen(2))
  have kind: "\<forall>k < 4. drawn_type d = [CAR, BUS, TRUCK, MOTORCYCLE] ! k \<longleftrightarrow>
            real k / 4 \<le> val (typeDraw d) \<and> val (typeDraw d) < (real k + 1) / 4"
    using drawn_type_interval [of d] assms(1) by (simp add: draws_ok_def)
  have range: "D 20 \<le> drawn_speed d" "drawn_speed d \<le> D 50"
    "\<bar>val (drawn_speed d) - (20 + 30 * val (speedDraw d))\<bar> \<le> 1 / 2 ^ 47"
    using drawn_speed_range [of d] assms(1) by (simp_all add: draws_ok_def)
  have after: "simTime s' = simTime s + step"
    "length (heap s') = (if spawns d then length (heap s) + 1 else length (heap s))"
    "all_vehicles s' = (if spawns d then all_vehicles s @ [length (heap s)] else all_vehicles s)"
    "nextId s' = (if spawns d then nextId s + 1 else nextId s)"
    by (simp_all add: order update_lanes_fields gen) (simp_all add: g assms(3) generateVehicle_eq)
  have fresh: "nextId s \<notin> set (map vid (heap s)) \<and> ids_fresh g \<and> ids_fresh s'" if "ids_fresh s"
  proof -
    have "ids_fresh s1"
      using that by (simp add: ids_fresh_def assms(3))
    then have "ids_fresh g"
      unfolding g by (rule generateVehicle_ids_fresh)
    moreover have "ids_fresh s'"
      unfolding assms(5) using that by (rule Simulation_update_ids_fresh)
    moreover have "nextId s \<notin> set (map vid (heap s))"
      using that by (auto simp: ids_fresh_def)
    ultimately show ?thesis by simp
  qed
  show ?thesis
    using order coin lanes_order after gen(1) unfolded(1) kind unfolded(2) range unfolded(3) lane
      gen(2) into_lane gen(3,4) fresh
    by (intro conjI impI) blast+
qed

lemma ex_truck_draws:
  "draws_ok truck_draws \<and> spawns truck_draws \<and> drawn_type truck_draws = TRUCK \<and>
   val (drawn_speed truck_draws) = 35 \<and>
   drawn_lane (Simulation_setup Simulation_ctor) truck_draws = 1 \<and>
   draws_ok edge_draws \<and> \<not> spawns edge_draws \<and> val (coin edge_draws) < 3 / 10"
  by code_simp

theorem Simulation_update_tick_witness:
  "draws_ok truck_draws \<and> lanes (Simulation_setup Simulation_ctor) \<noteq> [] \<and>
   spawns truck_draws \<and>
   simTime (Simulation_update truck_draws 1 (Simulation_setup Simulation_ctor)) = 1 \<and>
   map vid (heap (generateVehicle truck_draws ((Simulation_setup Simulation_ctor)\<lparr>simTime := 1\<rparr>))) = [1] \<and>
   map vtype (heap (generateVehicle truck_draws ((Simulation_setup Simulation_ctor)\<lparr>simTime := 1\<rparr>))) = [TRUCK] \<and>
   map (\<lambda>v. val (speed v))
     (heap (generateVehicle truck_draws ((Simulation_setup Simulation_ctor)\<lparr>simTime := 1\<rparr>))) = [35] \<and>
   map currentLane (heap (generateVehicle truck_draws ((Simulation_setup Simulation_ctor)\<lparr>simTime := 1\<rparr>))) = [Some 1] \<and>
   map vehicles (lanes (generateVehicle truck_draws ((Simulation_setup Simulation_ctor)\<lparr>simTime := 1\<rparr>))) = [[], [0]] \<and>
   all_vehicles (Simulation_update truck_draws 1 (Simulation_setup Simulation_ctor)) = [0] \<and>
   nextId (Simulation_update truck_draws 1 (Simulation_setup Simulation_ctor)) = 2 \<and>
   ids_fresh (Simulation_update truck_draws 1 (Simulation_setup Simulation_ctor)) \<and>
   draws_ok edge_draws \<and> \<not> spawns edge_draws \<and> val (coin edge_draws) < 3 / 10 \<and>
   length (heap (Simulation_update edge_draws 1 (Simulation_setup Simulation_ctor))) = 0"
proof -
  let ?s0 = "Simulation_setup Simulation_ctor"
  let ?g = "generateVehicle truck_draws (?s0\<lparr>simTime := 1\<rparr>)"
  have ok: "draws_ok truck_draws" "draws_ok edge_draws"
    using ex_truck_draws by simp_all
  have lanes: "lanes ?s0 \<noteq> []"
    by (simp add: setup_fields)
  have s1: "?s0\<lparr>simTime := 1\<rparr> = ?s0\<lparr>simTime := simTime ?s0 + 1\<rparr>"
    by (simp add: setup_fields)
  note c = Simulation_update_tick [where ?s2.0 = ?s0, OF ok(1) lanes s1 refl refl]
  note e = Simulation_update_tick [where ?s2.0 = ?s0 and step = 1, OF ok(2) lanes refl refl refl]
  have "simTime (Simulation_update truck_draws 1 ?s0) = simTime ?s0 + 1"
    using c by blast
  then have time: "simTime (Simulation_update truck_draws 1 ?s0) = 1"
    by (simp add: setup_fields)
  have "all_vehicles (Simulation_update truck_draws 1 ?s0) =
      (if spawns truck_draws then all_vehicles ?s0 @ [length (heap ?s0)] else all_vehicles ?s0)"
    using c by blast
  then have all: "all_vehicles (Simulation_update truck_draws 1 ?s0) = [0]"
    using ex_truck_draws by (simp add: setup_fields)
  have "nextId (Simulation_update truck_draws 1 ?s0) =
      (if spawns truck_draws then nextId ?s0 + 1 else nextId ?s0)"
    using c by blast
  then have next_id: "nextId (Simulation_update truck_draws 1 ?s0) = 2"
    using ex_truck_draws by (simp add: setup_fields)
  have "heap ?g = heap ?s0 @ [\<lparr>vid = nextId ?s0, vtype = drawn_type truck_draws,
        speed = drawn_speed truck_draws, position = D 0,
        currentLane = Some (drawn_lane ?s0 truck_draws)\<rparr>]"
    using c by blast
  then have heap: "map vid (heap ?g) = [1]" "map vtype (heap ?g) = [TRUCK]"
    "map (\<lambda>v. val (speed v)) (heap ?g) = [35]" "map currentLane (heap ?g) = [Some 1]"
    using ex_truck_draws by (simp_all add: setup_fields)
  have "lanes ?g = (lanes ?s0)[drawn_lane ?s0 truck_draws := (lanes ?s0 ! drawn_lane ?s0 truck_draws)
      \<lparr>vehicles := vehicles (lanes ?s0 ! drawn_lane ?s0 truck_draws) @ [length (heap ?s0)]\<rparr>]"
    using c by blast
  then have into: "map vehicles (lanes ?g) = [[], [0]]"
    using ex_truck_draws by (simp add: setup_fields Lane_ctor_def)
  have fresh: "ids_fresh (Simulation_update truck_draws 1 ?s0)"
    using c setup_ids_fresh by blast
  have "length (heap (Simulation_update edge_draws 1 ?s0)) =
      (if spawns edge_draws then length (heap ?s0) + 1 else length (heap ?s0))"
    using e by blast
  then have none: "length (heap (Simulation_update edge_draws 1 ?s0)) = 0"
    using ex_truck_draws by (simp add: setup_fields)
  show ?thesis
    using ok lanes time heap into all next_id fresh none ex_truck_draws by simp
qed
section \<open>The lanes of a state of the program\<close>

text \<open>
  In every state that the program reaches from \<^verbatim>\<open>setup\<close>, the pointers of a lane are
  pairwise different and address allocated vehicles: the conditions under which
  \<^verbatim>\<open>Lane::update\<close> is described above.
\<close>

lemma loop_kept_distinct: "distinct ps \<Longrightarrow> distinct (fst (Lane_update_loop L this timeStep ps h))"
  by (simp add: loop_kept)

lemma Lane_update_distinct:
  "j < length (fst x) \<Longrightarrow> distinct (vehicles (fst x ! j)) \<Longrightarrow>
   distinct (vehicles (fst (Lane_update this timeStep x) ! j))"
  by (cases "j = this") (simp_all add: Lane_update_def Let_def case_prod_beta loop_kept_distinct)

lemma update_each_lane_distinct:
  "j < length (fst x) \<Longrightarrow> distinct (vehicles (fst x ! j)) \<Longrightarrow>
   distinct (vehicles (fst (update_each_lane step is x) ! j))"
  by (induction "is" arbitrary: x)
    (simp_all add: update_each_lane_Nil update_each_lane_Cons length_Lane_update Lane_update_distinct)

lemma lanes_distinct_nth:
  "lanes_distinct s \<longleftrightarrow> (\<forall>j < length (lanes s). distinct (vehicles (lanes s ! j)))"
  unfolding lanes_distinct_def by (metis in_set_conv_nth)

lemma update_lanes_distinct: "lanes_distinct s \<Longrightarrow> lanes_distinct (update_lanes step s)"
  unfolding lanes_distinct_nth
  using update_each_lane_distinct [of _ "(lanes s, heap s)" step "[0..<length (lanes s)]"]
  by (simp add: update_lanes_eq length_update_each_lane)

lemma generateVehicle_distinct:
  "ptrs_valid s \<Longrightarrow> lanes_distinct s \<Longrightarrow> lanes_distinct (generateVehicle d s)"
proof -
  assume valid: "ptrs_valid s" and dist: "lanes_distinct s"
  have "distinct (vehicles (lanes (generateVehicle d s) ! j))" if j: "j < length (lanes s)" for j
  proof -
    have "length (heap s) \<notin> set (vehicles (lanes s ! j))"
      using valid j by (auto simp: ptrs_valid_def)
    moreover have "distinct (vehicles (lanes s ! j))"
      using dist j by (simp add: lanes_distinct_nth)
    ultimately show ?thesis
      using j by (auto simp: generateVehicle_vehicles)
  qed
  then show ?thesis
    by (simp add: lanes_distinct_nth generateVehicle_lanes_length)
qed

lemma Simulation_update_distinct:
  "ptrs_valid s \<Longrightarrow> lanes_distinct s \<Longrightarrow> lanes_distinct (Simulation_update d step s)"
proof -
  assume valid: "ptrs_valid s" and dist: "lanes_distinct s"
  let ?t = "s\<lparr>simTime := simTime s + step\<rparr>"
  have "ptrs_valid ?t" "lanes_distinct ?t"
    using valid dist by (simp_all add: ptrs_valid_def lanes_distinct_def)
  then show ?thesis
    by (simp add: Simulation_update_eq update_lanes_distinct generateVehicle_distinct)
qed

lemma run_lanes_distinct:
  "ptrs_valid s \<Longrightarrow> lanes_distinct s \<Longrightarrow> lanes_distinct (run ds s)"
  by (induction ds arbitrary: s)
    (simp_all add: run_Nil run_Cons Simulation_update_distinct Simulation_update_ptrs_valid)

lemma setup_lanes_distinct: "lanes_distinct (Simulation_setup Simulation_ctor)"
  by (simp add: lanes_distinct_def setup_fields Lane_ctor_def)

lemma reachable_lanes:
  assumes "s = run ds (Simulation_setup Simulation_ctor)" and "this < length (lanes s)"
  shows "distinct (vehicles (lanes s ! this)) \<and> (\<forall>p \<in> set (vehicles (lanes s ! this)). p < length (heap s))"
proof -
  have "lanes_distinct s" "ptrs_valid s"
    unfolding assms(1)
    by (simp_all add: run_lanes_distinct run_ptrs_valid setup_ptrs_valid setup_lanes_distinct)
  then show ?thesis
    using assms(2) by (auto simp: lanes_distinct_def ptrs_valid_def)
qed

end
